theory Spec2Isabelle
  imports Complex_Main
begin

section \<open>Floating-point values\<close>

text \<open>
  The simulation computes on C++ \<^verbatim>\<open>float\<close> (and, in the diagnostics, \<^verbatim>\<open>double\<close>) values.
  A value is either finite, an infinity, or a NaN. A finite value is represented by the real
  number it denotes; the rounding of a finite result to the nearest representable value and
  the overflow of a finite result to an infinity are not modelled, and the two zeros are
  identified (a zero divisor counts as \<open>+0\<close>). A literal such as \<^verbatim>\<open>1.2f\<close> stands for the
  decimal number it is written as. The non-finite values follow IEEE 754: a NaN operand gives
  a NaN result, \<open>\<infinity> - \<infinity>\<close>, \<open>0 \<sqdot> \<infinity>\<close>, \<open>0 / 0\<close> and \<open>\<infinity> / \<infinity>\<close> are NaN, and every ordered
  comparison with a NaN is false.
\<close>

datatype cfloat = Fin real | PInf | NInf | NaN

fun fneg :: "cfloat \<Rightarrow> cfloat" where
  "fneg (Fin a) = Fin (- a)"
| "fneg PInf = NInf"
| "fneg NInf = PInf"
| "fneg NaN = NaN"

fun fadd :: "cfloat \<Rightarrow> cfloat \<Rightarrow> cfloat" where
  "fadd (Fin a) (Fin b) = Fin (a + b)"
| "fadd NaN _ = NaN"
| "fadd _ NaN = NaN"
| "fadd PInf NInf = NaN"
| "fadd NInf PInf = NaN"
| "fadd PInf _ = PInf"
| "fadd _ PInf = PInf"
| "fadd NInf _ = NInf"
| "fadd _ NInf = NInf"

definition fsub :: "cfloat \<Rightarrow> cfloat \<Rightarrow> cfloat" where
  "fsub a b = fadd a (fneg b)"

text \<open>The infinity that has the sign of \<open>s \<sqdot> a\<close>, for an infinity of sign \<open>s\<close> and a finite \<open>a\<close>.\<close>

definition inf_times :: "bool \<Rightarrow> real \<Rightarrow> cfloat" where
  "inf_times positive a =
     (if a = 0 then NaN else if (0 < a) = positive then PInf else NInf)"

fun fmul :: "cfloat \<Rightarrow> cfloat \<Rightarrow> cfloat" where
  "fmul (Fin a) (Fin b) = Fin (a * b)"
| "fmul NaN _ = NaN"
| "fmul _ NaN = NaN"
| "fmul PInf (Fin b) = inf_times True b"
| "fmul NInf (Fin b) = inf_times False b"
| "fmul (Fin a) PInf = inf_times True a"
| "fmul (Fin a) NInf = inf_times False a"
| "fmul PInf PInf = PInf"
| "fmul PInf NInf = NInf"
| "fmul NInf PInf = NInf"
| "fmul NInf NInf = PInf"

fun fdiv :: "cfloat \<Rightarrow> cfloat \<Rightarrow> cfloat" where
  "fdiv (Fin a) (Fin b) =
     (if b \<noteq> 0 then Fin (a / b)
      else if 0 < a then PInf else if a < 0 then NInf else NaN)"
| "fdiv NaN _ = NaN"
| "fdiv _ NaN = NaN"
| "fdiv (Fin a) PInf = Fin 0"
| "fdiv (Fin a) NInf = Fin 0"
| "fdiv PInf (Fin b) = (if 0 \<le> b then PInf else NInf)"
| "fdiv NInf (Fin b) = (if 0 \<le> b then NInf else PInf)"
| "fdiv PInf PInf = NaN"
| "fdiv PInf NInf = NaN"
| "fdiv NInf PInf = NaN"
| "fdiv NInf NInf = NaN"

fun fsqrt :: "cfloat \<Rightarrow> cfloat" where
  "fsqrt (Fin a) = (if a < 0 then NaN else Fin (sqrt a))"
| "fsqrt PInf = PInf"
| "fsqrt NInf = NaN"
| "fsqrt NaN = NaN"

text \<open>The comparisons \<^verbatim>\<open><\<close>, \<^verbatim>\<open>>\<close> and \<^verbatim>\<open><=\<close>.\<close>

fun flt :: "cfloat \<Rightarrow> cfloat \<Rightarrow> bool" where
  "flt (Fin a) (Fin b) = (a < b)"
| "flt NaN _ = False"
| "flt _ NaN = False"
| "flt _ NInf = False"
| "flt PInf _ = False"
| "flt NInf _ = True"
| "flt _ PInf = True"

definition fgt :: "cfloat \<Rightarrow> cfloat \<Rightarrow> bool" where
  "fgt a b = flt b a"

fun fle :: "cfloat \<Rightarrow> cfloat \<Rightarrow> bool" where
  "fle (Fin a) (Fin b) = (a \<le> b)"
| "fle NaN _ = False"
| "fle _ NaN = False"
| "fle NInf _ = True"
| "fle _ PInf = True"
| "fle _ NInf = False"
| "fle PInf _ = False"

text \<open>\<^verbatim>\<open>fmin\<close> of the C library: when exactly one argument is a NaN, the other one is returned.\<close>

fun ffmin :: "cfloat \<Rightarrow> cfloat \<Rightarrow> cfloat" where
  "ffmin NaN b = b"
| "ffmin a NaN = a"
| "ffmin a b = (if flt b a then b else a)"

text \<open>\<^verbatim>\<open>std::clamp(v, lo, hi)\<close> is \<^verbatim>\<open>(v < lo) ? lo : (hi < v) ? hi : v\<close>.\<close>

definition fclamp :: "cfloat \<Rightarrow> cfloat \<Rightarrow> cfloat \<Rightarrow> cfloat" where
  "fclamp v lo hi = (if flt v lo then lo else if flt hi v then hi else v)"

text \<open>The conversion \<^verbatim>\<open>float(n)\<close> of an \<^verbatim>\<open>int\<close>.\<close>

definition float_of_int :: "int \<Rightarrow> cfloat" where
  "float_of_int n = Fin (of_int n)"

fun is_finite :: "cfloat \<Rightarrow> bool" where
  "is_finite (Fin a) = True"
| "is_finite _ = False"


section \<open>The particle state\<close>

text \<open>
  \<^verbatim>\<open>struct Vertex { float x, y, z; float r, g, b; }\<close>: a position and a colour.
\<close>

record Vertex =
  x :: cfloat
  y :: cfloat
  z :: cfloat
  r :: cfloat
  g :: cfloat
  b :: cfloat

text \<open>
  \<^verbatim>\<open>struct Grille\<close>: the particle records and the eight scalar fields, each a vector of
  vectors of vectors of \<^verbatim>\<open>float\<close>. The field \<^verbatim>\<open>div\<close>, which holds the density, is named
  \<open>div_f\<close> here.
\<close>

type_synonym field3 = "cfloat list list list"

record Grille =
  vertices :: "Vertex list"
  nx :: int
  ny :: int
  nz :: int
  vx :: field3
  vy :: field3
  vz :: field3
  ax :: field3
  ay :: field3
  az :: field3
  pressure :: field3
  div_f :: field3

text \<open>Reading and writing \<^verbatim>\<open>f[i][j][k]\<close>.\<close>

definition get3 :: "field3 \<Rightarrow> nat \<Rightarrow> nat \<Rightarrow> nat \<Rightarrow> cfloat" where
  "get3 f i j k = f ! i ! j ! k"

definition set3 :: "field3 \<Rightarrow> nat \<Rightarrow> nat \<Rightarrow> nat \<Rightarrow> cfloat \<Rightarrow> field3" where
  "set3 f i j k v = f[i := (f ! i)[j := (f ! i ! j)[k := v]]]"

text \<open>
  \<^verbatim>\<open>inline int idx3(int i, int j, int k, int ny, int nz)\<close>. The values of type \<^verbatim>\<open>int\<close> are
  integers without a bound: the overflow of a signed product is undefined in the source, and
  the resolutions are taken to be small enough for \<^verbatim>\<open>nx * ny * nz\<close> to be an \<^verbatim>\<open>int\<close>.
\<close>

definition idx3 :: "int \<Rightarrow> int \<Rightarrow> int \<Rightarrow> int \<Rightarrow> int \<Rightarrow> int" where
  "idx3 i j k ny' nz' = i * (ny' * nz') + j * nz' + k"

text \<open>
  The loop nest
  \<^verbatim>\<open>for (int i = 0; i < nx; ++i) for (int j = 0; j < ny; ++j) for (int k = 0; k < nz; ++k)\<close>
  that every phase runs over the lattice. The loop variables only take non-negative values
  and are natural numbers here; \<open>int\<close> converts them where the source computes with them.
  The \<^verbatim>\<open>omp parallel for\<close> annotations are not modelled: the iterations run in index order.
\<close>

definition for3 :: "int \<Rightarrow> int \<Rightarrow> int \<Rightarrow> (nat \<Rightarrow> nat \<Rightarrow> nat \<Rightarrow> 's \<Rightarrow> 's) \<Rightarrow> 's \<Rightarrow> 's" where
  "for3 nx' ny' nz' body =
     fold (\<lambda>i. fold (\<lambda>j. fold (\<lambda>k. body i j k) [0..<nat nz']) [0..<nat ny']) [0..<nat nx']"

text \<open>The index of the particle record of lattice coordinate \<open>(i, j, k)\<close> in a grid.\<close>

definition vid :: "Grille \<Rightarrow> nat \<Rightarrow> nat \<Rightarrow> nat \<Rightarrow> nat" where
  "vid grid i j k = nat (idx3 (int i) (int j) (int k) (ny grid) (nz grid))"

section \<open>The lattice factory\<close>

text \<open>
  The constructor \<^verbatim>\<open>Grille(nx_, ny_, nz_)\<close> resizes every field to \<open>nx \<times> ny \<times> nz\<close> zeros and
  leaves \<open>vertices\<close> empty. A negative size converts to a \<^verbatim>\<open>size_t\<close> beyond
  \<^verbatim>\<open>max_size()\<close>, for which the vector constructor throws \<^verbatim>\<open>std::length_error\<close>: the result
  \<open>None\<close>.
\<close>

definition zeros3 :: "int \<Rightarrow> int \<Rightarrow> int \<Rightarrow> field3" where
  "zeros3 nx' ny' nz' = replicate (nat nx') (replicate (nat ny') (replicate (nat nz') (Fin 0)))"

definition Grille_init :: "int \<Rightarrow> int \<Rightarrow> int \<Rightarrow> Grille option" where
  "Grille_init nx' ny' nz' =
     (if nx' < 0 \<or> ny' < 0 \<or> nz' < 0 then None
      else Some \<lparr> vertices = [], nx = nx', ny = ny', nz = nz',
                  vx = zeros3 nx' ny' nz', vy = zeros3 nx' ny' nz', vz = zeros3 nx' ny' nz',
                  ax = zeros3 nx' ny' nz', ay = zeros3 nx' ny' nz', az = zeros3 nx' ny' nz',
                  pressure = zeros3 nx' ny' nz', div_f = zeros3 nx' ny' nz' \<rparr>)"

text \<open>A value-initialised \<^verbatim>\<open>Vertex\<close>, as \<^verbatim>\<open>vertices.resize(n)\<close> creates it.\<close>

definition Vertex0 :: Vertex where
  "Vertex0 = \<lparr> x = Fin 0, y = Fin 0, z = Fin 0, r = Fin 0, g = Fin 0, b = Fin 0 \<rparr>"

text \<open>
  The body of the loop of \<^verbatim>\<open>CreateGrid\<close>. The aggregate \<^verbatim>\<open>{ x, y, z }\<close> gives the three
  remaining members the value zero.
\<close>

definition place_vertex :: "cfloat \<Rightarrow> nat \<Rightarrow> nat \<Rightarrow> nat \<Rightarrow> Grille \<Rightarrow> Grille" where
  "place_vertex scale i j k grid =
     (let id = vid grid i j k;
          x' = fmul (float_of_int (int i)) scale;
          y' = fadd (fmul (float_of_int (int j)) scale) (float_of_int 5);
          z' = fmul (float_of_int (int k)) scale
      in grid\<lparr>vertices := (vertices grid)
                [id := \<lparr> x = x', y = y', z = z', r = Fin 0, g = Fin 0, b = Fin 0 \<rparr>]\<rparr>)"

definition CreateGrid :: "int \<Rightarrow> int \<Rightarrow> int \<Rightarrow> cfloat \<Rightarrow> Grille option" where
  "CreateGrid resolution_x resolution_y resolution_z scale =
     (case Grille_init resolution_x resolution_y resolution_z of
        None \<Rightarrow> None
      | Some grid \<Rightarrow>
          Some (for3 resolution_x resolution_y resolution_z (place_vertex scale)
                  (grid\<lparr>vertices :=
                     replicate (nat (resolution_x * resolution_y * resolution_z)) Vertex0\<rparr>)))"

section \<open>The solver step\<close>

text \<open>The constants of \<^verbatim>\<open>UpdateGrid\<close>. The local \<^verbatim>\<open>g\<close> of the source is \<open>gravity\<close> here.\<close>

definition gravity :: cfloat where "gravity = Fin (- 981 / 100)"
definition nu :: cfloat where "nu = Fin (13 / 10)"
definition radius :: cfloat where "radius = Fin 1"
definition h :: cfloat where "h = Fin (12 / 10)"
definition stiffness :: cfloat where "stiffness = Fin (6 / 10)"
definition wallStiffness :: cfloat where "wallStiffness = Fin 2"
definition wallDamping :: cfloat where "wallDamping = Fin (8 / 10)"
definition epsilon :: cfloat where "epsilon = Fin (1 / 10000)"

definition minX :: cfloat where "minX = Fin 0"
definition maxX :: cfloat where "maxX = Fin 20"
definition minY :: cfloat where "minY = Fin 0"
definition maxY :: cfloat where "maxY = Fin 60"
definition minZ :: cfloat where "minZ = Fin 0"
definition maxZ :: cfloat where "maxZ = Fin 20"

text \<open>
  \<^verbatim>\<open>const float restDensity = (maxX - minX) * (maxY - minY) * (maxZ - minZ) / float(N)\<close>
  with \<^verbatim>\<open>N = nx * ny * nz\<close>, computed once at the head of \<^verbatim>\<open>UpdateGrid\<close>.
\<close>

definition restDensity :: "Grille \<Rightarrow> cfloat" where
  "restDensity grid =
     fdiv (fmul (fmul (fsub maxX minX) (fsub maxY minY)) (fsub maxZ minZ))
          (float_of_int (nx grid * ny grid * nz grid))"

subsection \<open>Phase 0: accelerations\<close>

definition reset_acc :: "nat \<Rightarrow> nat \<Rightarrow> nat \<Rightarrow> Grille \<Rightarrow> Grille" where
  "reset_acc i j k grid =
     grid\<lparr>ax := set3 (ax grid) i j k (Fin 0),
          ay := set3 (ay grid) i j k gravity,
          az := set3 (az grid) i j k (Fin 0)\<rparr>"

definition phase0 :: "Grille \<Rightarrow> Grille" where
  "phase0 grid = for3 (nx grid) (ny grid) (nz grid) reset_acc grid"

subsection \<open>Phase 1: density\<close>

text \<open>
  One iteration of the inner loops of the density phase, after the test for the particle
  itself: the contribution of the record \<open>n\<close> to the density accumulated for the record \<open>v\<close>.
\<close>

definition density_add :: "Vertex \<Rightarrow> Vertex \<Rightarrow> cfloat \<Rightarrow> cfloat" where
  "density_add v n density =
     (let dx = fsub (x v) (x n);
          dy = fsub (y v) (y n);
          dz = fsub (z v) (z n);
          r2 = fadd (fadd (fmul dx dx) (fmul dy dy)) (fmul dz dz)
      in if fgt r2 (Fin 0) \<and> flt r2 (fmul h h)
         then (let r' = fsqrt r2; q = fsub (Fin 1) (fdiv r' h) in fadd density (fmul q q))
         else density)"

text \<open>
  The density accumulated for the particle \<open>(i, j, k)\<close> by the three inner loops, which skip the
  particle itself, and the body of the three outer loops, which stores it in \<^verbatim>\<open>div[i][j][k]\<close>.
\<close>

definition density_of :: "Grille \<Rightarrow> nat \<Rightarrow> nat \<Rightarrow> nat \<Rightarrow> cfloat" where
  "density_of grid i j k =
     (let v = vertices grid ! vid grid i j k
      in for3 (nx grid) (ny grid) (nz grid)
           (\<lambda>ii jj kk density.
              if ii = i \<and> jj = j \<and> kk = k then density
              else density_add v (vertices grid ! vid grid ii jj kk) density)
           (Fin 0))"

definition density_cell :: "nat \<Rightarrow> nat \<Rightarrow> nat \<Rightarrow> Grille \<Rightarrow> Grille" where
  "density_cell i j k grid = grid\<lparr>div_f := set3 (div_f grid) i j k (density_of grid i j k)\<rparr>"

definition density_pass :: "Grille \<Rightarrow> Grille" where
  "density_pass grid = for3 (nx grid) (ny grid) (nz grid) density_cell grid"

subsection \<open>Phase 2: forces\<close>

text \<open>\<^verbatim>\<open>stiffness * (rho - restDensity)\<close>, the pressure of a particle of density \<open>rho\<close>.\<close>

definition pressure_of :: "cfloat \<Rightarrow> cfloat \<Rightarrow> cfloat" where
  "pressure_of rest rho = fmul stiffness (fsub rho rest)"

type_synonym vec3 = "cfloat \<times> cfloat \<times> cfloat"

definition vadd :: "vec3 \<Rightarrow> vec3 \<Rightarrow> vec3" where
  "vadd a c = (case a of (a1, a2, a3) \<Rightarrow> case c of (c1, c2, c3) \<Rightarrow>
                 (fadd a1 c1, fadd a2 c2, fadd a3 c3))"

text \<open>
  The distance \<^verbatim>\<open>r = std::sqrt(dx*dx + dy*dy + dz*dz)\<close> from the record \<open>A\<close> to the record \<open>B\<close>,
  with \<^verbatim>\<open>dx = B.x - A.x\<close> and so on.
\<close>

definition dist_to :: "Vertex \<Rightarrow> Vertex \<Rightarrow> cfloat" where
  "dist_to A B =
     (let dx = fsub (x B) (x A); dy = fsub (y B) (y A); dz = fsub (z B) (z A)
      in fsqrt (fadd (fadd (fmul dx dx) (fmul dy dy)) (fmul dz dz)))"

text \<open>
  The pressure term \<^verbatim>\<open>(fPress * nx_, fPress * ny_, fPress * nz_)\<close> that the neighbour \<open>B\<close> of
  pressure \<open>PB\<close> adds to the acceleration of the subject \<open>A\<close> of pressure \<open>PA\<close>.
\<close>

definition press_term :: "Vertex \<Rightarrow> cfloat \<Rightarrow> Vertex \<Rightarrow> cfloat \<Rightarrow> vec3" where
  "press_term A PA B PB =
     (let dx = fsub (x B) (x A); dy = fsub (y B) (y A); dz = fsub (z B) (z A);
          r' = dist_to A B;
          q = fsub (Fin 1) (fdiv r' h);
          nx' = fdiv dx r'; ny' = fdiv dy r'; nz' = fdiv dz r';
          fPress = fmul (fmul (Fin (- 5 / 10)) (fadd PA PB)) q
      in (fmul fPress nx', fmul fPress ny', fmul fPress nz'))"

text \<open>
  The viscosity term \<^verbatim>\<open>(nu * vxDiff * q, nu * vyDiff * q, nu * vzDiff * q)\<close>, from the
  velocities \<open>vA\<close> of the subject and \<open>vB\<close> of the neighbour.
\<close>

definition visc_term :: "Vertex \<Rightarrow> vec3 \<Rightarrow> Vertex \<Rightarrow> vec3 \<Rightarrow> vec3" where
  "visc_term A vA B vB =
     (case vA of (vxA, vyA, vzA) \<Rightarrow> case vB of (vxB, vyB, vzB) \<Rightarrow>
        (let q = fsub (Fin 1) (fdiv (dist_to A B) h)
         in (fmul (fmul nu (fsub vxB vxA)) q,
             fmul (fmul nu (fsub vyB vyA)) q,
             fmul (fmul nu (fsub vzB vzA)) q)))"

definition vel_at :: "Grille \<Rightarrow> nat \<Rightarrow> nat \<Rightarrow> nat \<Rightarrow> vec3" where
  "vel_at grid i j k = (get3 (vx grid) i j k, get3 (vy grid) i j k, get3 (vz grid) i j k)"

text \<open>
  One iteration of the neighbour loops of the force phase for the subject \<open>(i, j, k)\<close>, after
  the test for the particle itself: nothing is added when \<^verbatim>\<open>r <= 0 || r > h\<close>; otherwise
  the pressure term is added first and the viscosity term second.
\<close>

definition force_add :: "Grille \<Rightarrow> cfloat \<Rightarrow> nat \<Rightarrow> nat \<Rightarrow> nat \<Rightarrow> nat \<Rightarrow> nat \<Rightarrow> nat \<Rightarrow> vec3 \<Rightarrow> vec3" where
  "force_add grid rest i j k ii jj kk acc =
     (let A = vertices grid ! vid grid i j k;
          B = vertices grid ! vid grid ii jj kk;
          PA = pressure_of rest (get3 (div_f grid) i j k);
          r' = dist_to A B
      in if fle r' (Fin 0) \<or> fgt r' h then acc
         else (let PB = pressure_of rest (get3 (div_f grid) ii jj kk)
               in vadd (vadd acc (press_term A PA B PB))
                       (visc_term A (vel_at grid i j k) B (vel_at grid ii jj kk))))"

text \<open>The wall penalties, two tests for each axis, in the order of the source.\<close>

definition wall_axis :: "cfloat \<Rightarrow> cfloat \<Rightarrow> cfloat \<Rightarrow> cfloat \<Rightarrow> cfloat" where
  "wall_axis lo hi p a =
     (let a1 = (if flt (fsub p radius) lo
                then fadd a (fmul wallStiffness (fsub lo (fsub p radius))) else a)
      in if fgt (fadd p radius) hi
         then fsub a1 (fmul wallStiffness (fsub (fadd p radius) hi)) else a1)"

text \<open>The colour \<^verbatim>\<open>(t, 0.2f * (1.0f - t), 1.0f - t)\<close> of both colour modes.\<close>

definition gradient :: "cfloat \<Rightarrow> vec3" where
  "gradient t = (t, fmul (Fin (2 / 10)) (fsub (Fin 1) t), fsub (Fin 1) t)"

definition set_color :: "vec3 \<Rightarrow> Vertex \<Rightarrow> Vertex" where
  "set_color c v = (case c of (r', g', b') \<Rightarrow> v\<lparr>r := r', g := g', b := b'\<rparr>)"

text \<open>
  The body of the outer loops of the force phase: the neighbour loops start from the stored
  acceleration of the particle, the wall penalties follow, the result is stored, and the
  colour is written as the two flags say.
\<close>

definition force_cell :: "cfloat \<Rightarrow> bool \<Rightarrow> bool \<Rightarrow> nat \<Rightarrow> nat \<Rightarrow> nat \<Rightarrow> Grille \<Rightarrow> Grille" where
  "force_cell rest pressure' speed i j k grid =
     (let id = vid grid i j k;
          A = vertices grid ! id;
          PA = pressure_of rest (get3 (div_f grid) i j k);
          local = (get3 (ax grid) i j k, get3 (ay grid) i j k, get3 (az grid) i j k);
          local1 = for3 (nx grid) (ny grid) (nz grid)
                     (\<lambda>ii jj kk acc.
                        if ii = i \<and> jj = j \<and> kk = k then acc
                        else force_add grid rest i j k ii jj kk acc)
                     local;
          ax_local = wall_axis minX maxX (x A) (fst local1);
          ay_local = wall_axis minY maxY (y A) (fst (snd local1));
          az_local = wall_axis minZ maxZ (z A) (snd (snd local1));
          grid1 = grid\<lparr>ax := set3 (ax grid) i j k ax_local,
                       ay := set3 (ay grid) i j k ay_local,
                       az := set3 (az grid) i j k az_local\<rparr>
      in if pressure' then
           (let Pnorm = fclamp (fdiv (fsub PA (fneg rest)) (fmul rest (Fin 2))) (Fin 0) (Fin 1)
            in grid1\<lparr>vertices := (vertices grid1)[id := set_color (gradient Pnorm) (vertices grid1 ! id)]\<rparr>)
         else if \<not> speed then
           grid1\<lparr>vertices := (vertices grid1)[id := set_color (Fin 0, Fin 0, Fin 1) (vertices grid1 ! id)]\<rparr>
         else grid1)"

definition force_pass :: "cfloat \<Rightarrow> bool \<Rightarrow> bool \<Rightarrow> Grille \<Rightarrow> Grille" where
  "force_pass rest pressure' speed grid =
     for3 (nx grid) (ny grid) (nz grid) (force_cell rest pressure' speed) grid"

subsection \<open>Phase 3: integration\<close>

text \<open>
  The hard boundary of one axis: the position \<open>p\<close> and the velocity \<open>v\<close> after
  \<^verbatim>\<open>if (p < lo + epsilon) { p = lo + epsilon; v = -v * wallDamping; }
  else if (p > hi - epsilon) { p = hi - epsilon; v = -v * wallDamping; }\<close>.
\<close>

definition bounce :: "cfloat \<Rightarrow> cfloat \<Rightarrow> cfloat \<times> cfloat \<Rightarrow> cfloat \<times> cfloat" where
  "bounce lo hi pv =
     (case pv of (p, v) \<Rightarrow>
        if flt p (fadd lo epsilon) then (fadd lo epsilon, fmul (fneg v) wallDamping)
        else if fgt p (fsub hi epsilon) then (fsub hi epsilon, fmul (fneg v) wallDamping)
        else (p, v))"

text \<open>
  \<^verbatim>\<open>norm_v = sqrt(vx*vx + vy*vy + vz*vz); v_norm = fmin(norm_v / 15, 1.0f)\<close>
\<close>

definition speed_norm :: "vec3 \<Rightarrow> cfloat" where
  "speed_norm v =
     (case v of (vx', vy', vz') \<Rightarrow>
        (let norm_v = fsqrt (fadd (fadd (fmul vx' vx') (fmul vy' vy')) (fmul vz' vz'))
         in ffmin (fdiv norm_v (float_of_int 15)) (Fin 1)))"

definition acc_at :: "Grille \<Rightarrow> nat \<Rightarrow> nat \<Rightarrow> nat \<Rightarrow> vec3" where
  "acc_at grid i j k = (get3 (ax grid) i j k, get3 (ay grid) i j k, get3 (az grid) i j k)"

text \<open>
  The body of the integration loop for one particle, from its record \<open>v\<close>, its velocity and
  its acceleration: the new record and the new velocity. The velocity is advanced first, the
  position second, then the three axes are bounded in the order x, y, z, and last the colour
  of the speed mode is written.
\<close>

definition integrate_particle :: "cfloat \<Rightarrow> bool \<Rightarrow> Vertex \<Rightarrow> vec3 \<Rightarrow> vec3 \<Rightarrow> Vertex \<times> vec3" where
  "integrate_particle dt speed v vel acc =
     (case vel of (vx0, vy0, vz0) \<Rightarrow> case acc of (ax', ay', az') \<Rightarrow>
        (let vx1 = fadd vx0 (fmul ax' dt);
             vy1 = fadd vy0 (fmul ay' dt);
             vz1 = fadd vz0 (fmul az' dt);
             bnd_x = bounce minX maxX (fadd (x v) (fmul vx1 dt), vx1);
             bnd_y = bounce minY maxY (fadd (y v) (fmul vy1 dt), vy1);
             bnd_z = bounce minZ maxZ (fadd (z v) (fmul vz1 dt), vz1);
             v1 = v\<lparr>x := fst bnd_x, y := fst bnd_y, z := fst bnd_z\<rparr>;
             vel1 = (snd bnd_x, snd bnd_y, snd bnd_z);
             v2 = (if speed then set_color (gradient (speed_norm vel1)) v1 else v1)
         in (v2, vel1)))"

definition integrate_cell :: "cfloat \<Rightarrow> bool \<Rightarrow> nat \<Rightarrow> nat \<Rightarrow> nat \<Rightarrow> Grille \<Rightarrow> Grille" where
  "integrate_cell dt speed i j k grid =
     (let id = vid grid i j k;
          res = integrate_particle dt speed (vertices grid ! id) (vel_at grid i j k) (acc_at grid i j k);
          vel1 = snd res
      in grid\<lparr>vertices := (vertices grid)[id := fst res],
              vx := set3 (vx grid) i j k (fst vel1),
              vy := set3 (vy grid) i j k (fst (snd vel1)),
              vz := set3 (vz grid) i j k (snd (snd vel1))\<rparr>)"

definition integrate_pass :: "cfloat \<Rightarrow> bool \<Rightarrow> Grille \<Rightarrow> Grille" where
  "integrate_pass dt speed grid =
     for3 (nx grid) (ny grid) (nz grid) (integrate_cell dt speed) grid"

subsection \<open>The step\<close>

text \<open>
  \<^verbatim>\<open>void UpdateGrid(float dt, Grille& grid, bool pressure, bool speed)\<close>: the grid is
  updated in place; here the updated grid is returned.
\<close>

definition UpdateGrid :: "cfloat \<Rightarrow> Grille \<Rightarrow> bool \<Rightarrow> bool \<Rightarrow> Grille" where
  "UpdateGrid dt grid pressure' speed =
     integrate_pass dt speed
       (force_pass (restDensity grid) pressure' speed
          (density_pass (phase0 grid)))"

text \<open>A sequence of calls of \<^verbatim>\<open>UpdateGrid\<close> on one grid, each with its own arguments.\<close>

definition run_steps :: "(cfloat \<times> bool \<times> bool) list \<Rightarrow> Grille \<Rightarrow> Grille" where
  "run_steps calls grid =
     fold (\<lambda>call grid'. case call of (dt, pressure', speed) \<Rightarrow> UpdateGrid dt grid' pressure' speed)
       calls grid"

section \<open>Diagnostics\<close>

text \<open>
  \<^verbatim>\<open>Vertex ComputeAverageVelocity(const Grille& grid)\<close>. The three \<^verbatim>\<open>double\<close> totals are
  values of the same type \<open>cfloat\<close>; the grid is an argument by \<^verbatim>\<open>const\<close> reference and
  the function has no other result than the returned record.
\<close>

definition total_add :: "Grille \<Rightarrow> nat \<Rightarrow> nat \<Rightarrow> nat \<Rightarrow> vec3 \<Rightarrow> vec3" where
  "total_add grid i j k totals = vadd totals (vel_at grid i j k)"

definition ComputeAverageVelocity :: "Grille \<Rightarrow> Vertex" where
  "ComputeAverageVelocity grid =
     (let count = nx grid * ny grid * nz grid;
          totals = for3 (nx grid) (ny grid) (nz grid) (total_add grid) (Fin 0, Fin 0, Fin 0)
      in \<lparr> x = fdiv (fst totals) (float_of_int count),
           y = fdiv (fst (snd totals)) (float_of_int count),
           z = fdiv (snd (snd totals)) (float_of_int count),
           r = Fin 0, g = Fin 0, b = Fin 0 \<rparr>)"

section \<open>Well-formed grids\<close>

text \<open>
  The loops index every field with \<open>i < nx\<close>, \<open>j < ny\<close>, \<open>k < nz\<close> and the particle records with
  \<open>idx3\<close>. A grid is well formed when these accesses are all in range: the dimensions are not
  negative, there are \<open>nx \<sqdot> ny \<sqdot> nz\<close> particle records, and every field has \<open>nx \<times> ny \<times> nz\<close>
  entries. (An access out of range is undefined behaviour of the source.)
\<close>

definition shape3 :: "int \<Rightarrow> int \<Rightarrow> int \<Rightarrow> field3 \<Rightarrow> bool" where
  "shape3 nx' ny' nz' f \<longleftrightarrow>
     length f = nat nx' \<and>
     list_all (\<lambda>row. length row = nat ny' \<and> list_all (\<lambda>col. length col = nat nz') row) f"

definition wf_grid :: "Grille \<Rightarrow> bool" where
  "wf_grid grid \<longleftrightarrow>
     0 \<le> nx grid \<and> 0 \<le> ny grid \<and> 0 \<le> nz grid \<and>
     length (vertices grid) = nat (nx grid * ny grid * nz grid) \<and>
     shape3 (nx grid) (ny grid) (nz grid) (vx grid) \<and>
     shape3 (nx grid) (ny grid) (nz grid) (vy grid) \<and>
     shape3 (nx grid) (ny grid) (nz grid) (vz grid) \<and>
     shape3 (nx grid) (ny grid) (nz grid) (ax grid) \<and>
     shape3 (nx grid) (ny grid) (nz grid) (ay grid) \<and>
     shape3 (nx grid) (ny grid) (nz grid) (az grid) \<and>
     shape3 (nx grid) (ny grid) (nz grid) (div_f grid)"

text \<open>The lattice coordinates of a grid.\<close>

definition in_grid :: "Grille \<Rightarrow> nat \<Rightarrow> nat \<Rightarrow> nat \<Rightarrow> bool" where
  "in_grid grid i j k \<longleftrightarrow> int i < nx grid \<and> int j < ny grid \<and> int k < nz grid"

text \<open>The lattice coordinates in the order in which \<open>for3\<close> visits them.\<close>

definition cells :: "int \<Rightarrow> int \<Rightarrow> int \<Rightarrow> (nat \<times> nat \<times> nat) list" where
  "cells nx' ny' nz' = List.product [0..<nat nx'] (List.product [0..<nat ny'] [0..<nat nz'])"


section \<open>Notions of the specification\<close>

text \<open>
  The density of the specification: for the particle \<open>A\<close>, with \<open>r\<^sup>2 = |A.pos - B.pos|\<^sup>2\<close>,
  the terms \<open>(1 - r / h)\<^sup>2\<close> of the other particles \<open>B\<close> with \<open>0 < r\<^sup>2 < h\<^sup>2\<close>, added up in the
  order of the lattice.
\<close>

definition spec_sq_dist :: "Vertex \<Rightarrow> Vertex \<Rightarrow> cfloat" where
  "spec_sq_dist A B =
     fadd (fadd (fmul (fsub (x A) (x B)) (fsub (x A) (x B)))
                (fmul (fsub (y A) (y B)) (fsub (y A) (y B))))
          (fmul (fsub (z A) (z B)) (fsub (z A) (z B)))"

definition spec_near :: "Vertex \<Rightarrow> Vertex \<Rightarrow> bool" where
  "spec_near A B \<longleftrightarrow> flt (Fin 0) (spec_sq_dist A B) \<and> flt (spec_sq_dist A B) (fmul h h)"

definition spec_kernel :: "Vertex \<Rightarrow> Vertex \<Rightarrow> cfloat" where
  "spec_kernel A B =
     fmul (fsub (Fin 1) (fdiv (fsqrt (spec_sq_dist A B)) h))
          (fsub (Fin 1) (fdiv (fsqrt (spec_sq_dist A B)) h))"

definition spec_density :: "Grille \<Rightarrow> nat \<Rightarrow> nat \<Rightarrow> nat \<Rightarrow> cfloat" where
  "spec_density grid i j k =
     foldl fadd (Fin 0)
       (map (\<lambda>(ii, jj, kk). spec_kernel (vertices grid ! vid grid i j k)
                                        (vertices grid ! vid grid ii jj kk))
          (filter (\<lambda>(ii, jj, kk). (ii, jj, kk) \<noteq> (i, j, k) \<and>
                      spec_near (vertices grid ! vid grid i j k)
                                (vertices grid ! vid grid ii jj kk))
             (cells (nx grid) (ny grid) (nz grid))))"

text \<open>
  The pressure of the specification, \<open>P(A) = stiffness \<sqdot> (density(A) - restDensity)\<close>, with the
  density of the specification and with \<open>restDensity\<close> written out as the volume of the domain
  divided by the number of particles.
\<close>

definition spec_pressure :: "Grille \<Rightarrow> nat \<Rightarrow> nat \<Rightarrow> nat \<Rightarrow> cfloat" where
  "spec_pressure grid i j k =
     fmul stiffness
       (fsub (spec_density grid i j k)
             (fdiv (Fin ((20 - 0) * (60 - 0) * (20 - 0)))
                   (float_of_int (nx grid * ny grid * nz grid))))"

text \<open>
  The acceleration of the specification for the particle \<open>A\<close> at \<open>(i, j, k)\<close>: from \<open>(0, g, 0)\<close>, every
  other particle \<open>B\<close> with \<open>0 < r \<le> h\<close> adds its pressure term, computed from \<open>P(A)\<close> and \<open>P(B)\<close>, and
  its viscosity term, in lattice order; the wall penalties of the three axes follow.
\<close>

definition spec_neighbour :: "Grille \<Rightarrow> nat \<times> nat \<times> nat \<Rightarrow> nat \<times> nat \<times> nat \<Rightarrow> vec3 \<Rightarrow> vec3" where
  "spec_neighbour grid ca cb acc =
     (case ca of (i, j, k) \<Rightarrow> case cb of (ii, jj, kk) \<Rightarrow>
        (let A = vertices grid ! vid grid i j k;
             B = vertices grid ! vid grid ii jj kk
         in if fle (dist_to A B) (Fin 0) \<or> fgt (dist_to A B) h then acc
            else vadd (vadd acc (press_term A (spec_pressure grid i j k)
                                            B (spec_pressure grid ii jj kk)))
                      (visc_term A (vel_at grid i j k) B (vel_at grid ii jj kk))))"

definition spec_accel :: "Grille \<Rightarrow> nat \<Rightarrow> nat \<Rightarrow> nat \<Rightarrow> vec3" where
  "spec_accel grid i j k =
     (let A = vertices grid ! vid grid i j k;
          a = fold (\<lambda>cb acc. if cb = (i, j, k) then acc else spec_neighbour grid (i, j, k) cb acc)
                (cells (nx grid) (ny grid) (nz grid)) (Fin 0, gravity, Fin 0)
      in (wall_axis minX maxX (x A) (fst a),
          wall_axis minY maxY (y A) (fst (snd a)),
          wall_axis minZ maxZ (z A) (snd (snd a))))"

text \<open>The colour and the position of a particle record.\<close>

definition colour_of :: "Vertex \<Rightarrow> vec3" where
  "colour_of v = (r v, g v, b v)"

definition pos :: "Vertex \<Rightarrow> vec3" where
  "pos v = (x v, y v, z v)"

text \<open>
  A coordinate \<open>p\<close> lies in \<open>[lo + epsilon, hi - epsilon]\<close>, and it lies strictly inside.
\<close>

definition within_bounds :: "cfloat \<Rightarrow> cfloat \<Rightarrow> cfloat \<Rightarrow> bool" where
  "within_bounds lo hi p \<longleftrightarrow> fle (fadd lo epsilon) p \<and> fle p (fsub hi epsilon)"

definition strictly_inside :: "cfloat \<Rightarrow> cfloat \<Rightarrow> cfloat \<Rightarrow> bool" where
  "strictly_inside lo hi p \<longleftrightarrow> flt (fadd lo epsilon) p \<and> flt p (fsub hi epsilon)"

definition finite3 :: "vec3 \<Rightarrow> bool" where
  "finite3 v \<longleftrightarrow> is_finite (fst v) \<and> is_finite (fst (snd v)) \<and> is_finite (snd (snd v))"

text \<open>
  The acceleration that the body of the force phase stores for the particle \<open>(i, j, k)\<close> of a
  grid.
\<close>

definition force_acc :: "Grille \<Rightarrow> cfloat \<Rightarrow> nat \<Rightarrow> nat \<Rightarrow> nat \<Rightarrow> vec3" where
  "force_acc grid rest i j k =
     (let A = vertices grid ! vid grid i j k;
          a = for3 (nx grid) (ny grid) (nz grid)
                (\<lambda>ii jj kk acc.
                   if ii = i \<and> jj = j \<and> kk = k then acc
                   else force_add grid rest i j k ii jj kk acc)
                (acc_at grid i j k)
      in (wall_axis minX maxX (x A) (fst a),
          wall_axis minY maxY (y A) (fst (snd a)),
          wall_axis minZ maxZ (z A) (snd (snd a))))"

text \<open>
  The grid that \<open>CreateGrid\<close> hands to its loop, and the record that the loop stores for the
  lattice coordinate \<open>(i, j, k)\<close>.
\<close>

definition fresh :: "int \<Rightarrow> int \<Rightarrow> int \<Rightarrow> Grille" where
  "fresh a1 a2 a3 =
     \<lparr> vertices = replicate (nat (a1 * a2 * a3)) Vertex0, nx = a1, ny = a2, nz = a3,
       vx = zeros3 a1 a2 a3, vy = zeros3 a1 a2 a3, vz = zeros3 a1 a2 a3,
       ax = zeros3 a1 a2 a3, ay = zeros3 a1 a2 a3, az = zeros3 a1 a2 a3,
       pressure = zeros3 a1 a2 a3, div_f = zeros3 a1 a2 a3 \<rparr>"

definition placed :: "cfloat \<Rightarrow> nat \<Rightarrow> nat \<Rightarrow> nat \<Rightarrow> Vertex" where
  "placed scale i j k =
     \<lparr> x = fmul (float_of_int (int i)) scale,
       y = fadd (fmul (float_of_int (int j)) scale) (float_of_int 5),
       z = fmul (float_of_int (int k)) scale, r = Fin 0, g = Fin 0, b = Fin 0 \<rparr>"

section \<open>Concrete grids\<close>

text \<open>
  Small grids on which the theorems below are instantiated: one particle inside the domain,
  the same with a NaN coordinate and with an infinite velocity component, and two particles
  at distance 1 and at distance 2.
\<close>

definition lone_grid :: Grille where
  "lone_grid = \<lparr> vertices = [\<lparr> x = Fin 1, y = Fin 1, z = Fin 1, r = Fin 0, g = Fin 0, b = Fin 0 \<rparr>],
          nx = 1, ny = 1, nz = 1,
          vx = [[[Fin 0]]], vy = [[[Fin 0]]], vz = [[[Fin 0]]],
          ax = [[[Fin 0]]], ay = [[[Fin 0]]], az = [[[Fin 0]]],
          pressure = [[[Fin 0]]], div_f = [[[Fin 0]]] \<rparr>"

definition nan_grid :: Grille where
  "nan_grid = lone_grid\<lparr>vertices := [\<lparr> x = NaN, y = Fin 1, z = Fin 1, r = Fin 0, g = Fin 0, b = Fin 0 \<rparr>]\<rparr>"

definition inf_grid :: Grille where
  "inf_grid = lone_grid\<lparr>vx := [[[PInf]]]\<rparr>"

definition pair_grid :: Grille where
  "pair_grid = \<lparr> vertices = [\<lparr> x = Fin 0, y = Fin 5, z = Fin 0, r = Fin 0, g = Fin 0, b = Fin 0 \<rparr>,
                              \<lparr> x = Fin 0, y = Fin 5, z = Fin 1, r = Fin 0, g = Fin 0, b = Fin 0 \<rparr>],
          nx = 1, ny = 1, nz = 2,
          vx = [[[Fin 0, Fin 0]]], vy = [[[Fin 0, Fin 0]]], vz = [[[Fin 0, Fin 0]]],
          ax = [[[Fin 0, Fin 0]]], ay = [[[Fin 0, Fin 0]]], az = [[[Fin 0, Fin 0]]],
          pressure = [[[Fin 0, Fin 0]]], div_f = [[[Fin 0, Fin 0]]] \<rparr>"

definition far_grid :: Grille where
  "far_grid = pair_grid\<lparr>vertices := [\<lparr> x = Fin 0, y = Fin 5, z = Fin 0, r = Fin 0, g = Fin 0, b = Fin 0 \<rparr>,
                              \<lparr> x = Fin 0, y = Fin 5, z = Fin 2, r = Fin 0, g = Fin 0, b = Fin 0 \<rparr>]\<rparr>"


section \<open>Floating-point facts\<close>

lemma flt_NaN [simp]: "flt a NaN = False" "fle a NaN = False"
  by (cases a; simp)+

lemma fadd_Fin_iff: "fadd a c = Fin t \<longleftrightarrow> (\<exists>p q. a = Fin p \<and> c = Fin q \<and> t = p + q)"
  by (cases a; cases c) auto

lemma fneg_Fin_iff: "fneg a = Fin t \<longleftrightarrow> (\<exists>p. a = Fin p \<and> t = - p)"
  by (cases a) auto

lemma fsub_Fin_iff: "fsub a c = Fin t \<longleftrightarrow> (\<exists>p q. a = Fin p \<and> c = Fin q \<and> t = p - q)"
  by (auto simp: fsub_def fadd_Fin_iff fneg_Fin_iff)

lemma fmul_self_Fin_iff: "fmul a a = Fin t \<longleftrightarrow> (\<exists>p. a = Fin p \<and> t = p * p)"
  by (cases a) auto

lemma fsqrt_Fin_iff: "fsqrt a = Fin t \<longleftrightarrow> (\<exists>p. a = Fin p \<and> 0 \<le> p \<and> t = sqrt p)"
  by (cases a) auto

lemma flt_Fin_left: "flt (Fin p) a \<Longrightarrow> fle a (Fin q) \<Longrightarrow> \<exists>t. a = Fin t \<and> p < t \<and> t \<le> q"
  by (cases a) auto

lemma foldl_fadd_finite:
  "is_finite a \<Longrightarrow> \<forall>t\<in>set ts. is_finite t \<Longrightarrow> is_finite (foldl fadd a ts)"
proof (induction ts arbitrary: a)
  case Nil
  then show ?case by simp
next
  case (Cons t ts)
  then have "is_finite (fadd a t)" by (cases a; cases t) auto
  then show ?case using Cons by simp
qed


section \<open>The loop nest\<close>

lemma fold_product:
  "fold f (List.product xs ys) s = fold (\<lambda>a. fold (\<lambda>c. f (a, c)) ys) xs s"
  by (induction xs arbitrary: s) (simp_all add: fold_map comp_def)

lemma fold_product2:
  "fold (\<lambda>(j, k). f j k) (List.product ys zs) = fold (\<lambda>j. fold (\<lambda>k. f j k) zs) ys"
  by (rule ext) (simp add: fold_product)

lemma for3_cells:
  "for3 a1 a2 a3 body s = fold (\<lambda>(i, j, k). body i j k) (cells a1 a2 a3) s"
  by (simp add: for3_def cells_def fold_product fold_product2)

lemma set_cells:
  "(i, j, k) \<in> set (cells a1 a2 a3) \<longleftrightarrow> int i < a1 \<and> int j < a2 \<and> int k < a3"
  by (auto simp: cells_def)

lemma distinct_cells: "distinct (cells a1 a2 a3)"
  by (simp add: cells_def distinct_product)

lemma fold_invariant:
  assumes "\<And>c s. c \<in> set cs \<Longrightarrow> P s \<Longrightarrow> P (body c s)" and "P s"
  shows "P (fold body cs s)"
  using assms by (induction cs arbitrary: s) auto

lemma fold_own_slot:
  assumes frame: "\<And>c s. c \<in> D \<Longrightarrow> Inv s \<Longrightarrow>
             Inv (body c s) \<and> rd (body c s) = rd s \<and>
             (\<forall>d\<in>D. d \<noteq> c \<longrightarrow> slot d (body c s) = slot d s)"
    and loc: "\<And>c s s'. c \<in> D \<Longrightarrow> Inv s \<Longrightarrow> Inv s' \<Longrightarrow> rd s' = rd s \<Longrightarrow>
             slot c s' = slot c s \<Longrightarrow> slot c (body c s') = slot c (body c s)"
    and "distinct cs" and "set cs \<subseteq> D" and "Inv s"
  shows "Inv (fold body cs s) \<and> rd (fold body cs s) = rd s \<and>
         (\<forall>d\<in>D. slot d (fold body cs s) = (if d \<in> set cs then slot d (body d s) else slot d s))"
  using assms(3-)
proof (induction cs arbitrary: s)
  case Nil
  then show ?case by simp
next
  case (Cons c cs)
  let ?s1 = "body c s"
  from Cons.prems have c: "c \<in> D" and nc: "c \<notin> set cs" and d: "distinct cs"
    and sub: "set cs \<subseteq> D" by auto
  from frame[OF c Cons.prems(3)]
  have i1: "Inv ?s1" and r1: "rd ?s1 = rd s"
    and o1: "\<And>d. d \<in> D \<Longrightarrow> d \<noteq> c \<Longrightarrow> slot d ?s1 = slot d s" by auto
  from Cons.IH[OF d sub i1]
  have ih: "Inv (fold body cs ?s1)" "rd (fold body cs ?s1) = rd ?s1"
    "\<And>d. d \<in> D \<Longrightarrow> slot d (fold body cs ?s1) =
        (if d \<in> set cs then slot d (body d ?s1) else slot d ?s1)" by auto
  have "slot d (fold body (c # cs) s) =
        (if d \<in> set (c # cs) then slot d (body d s) else slot d s)" if dD: "d \<in> D" for d
  proof (cases "d \<in> set cs")
    case True
    then have "d \<noteq> c" using nc by auto
    then have "slot d ?s1 = slot d s" using o1 dD by simp
    then have "slot d (body d ?s1) = slot d (body d s)"
      using loc[OF dD Cons.prems(3) i1 r1] by simp
    then show ?thesis using ih(3)[OF dD] True by simp
  next
    case False
    then show ?thesis using ih(3)[OF dD] o1[OF dD] by auto
  qed
  then show ?case using ih r1 by simp
qed

lemma fold_skip_filter:
  "fold (\<lambda>c acc. if c = c0 then acc else if P c then fadd acc (w c) else acc) cs a =
   foldl fadd a (map w (filter (\<lambda>c. c \<noteq> c0 \<and> P c) cs))"
  by (induction cs arbitrary: a) simp_all

lemma for3_1: "for3 1 1 1 body s = body 0 0 0 s"
  by (simp add: for3_def)

lemma for3_112: "for3 1 1 2 body s = body 0 0 1 (body 0 0 0 s)"
  by (simp add: for3_def upt_rec)

lemma cells_112: "cells 1 1 2 = [(0, 0, 0), (0, 0, 1)]"
  by (simp add: cells_def upt_rec)

lemma cells_111: "cells 1 1 1 = [(0, 0, 0)]"
  by (simp add: cells_def)


section \<open>Fields and indices\<close>

lemma nth_update_cases:
  "xs[i := v] ! n = (if n = i \<and> i < length xs then v else xs ! n)"
  by (cases "i < length xs") (auto simp: list_update_beyond not_less)

lemma shape3_row: "shape3 a1 a2 a3 f \<Longrightarrow> i < length f \<Longrightarrow> length (f ! i) = nat a2"
  by (simp add: shape3_def list_all_length)

lemma shape3_col:
  "shape3 a1 a2 a3 f \<Longrightarrow> i < length f \<Longrightarrow> j < length (f ! i) \<Longrightarrow> length (f ! i ! j) = nat a3"
  by (simp add: shape3_def list_all_length)

lemma shape3_length: "shape3 a1 a2 a3 f \<Longrightarrow> length f = nat a1"
  by (simp add: shape3_def)

lemma get3_set3_same:
  assumes "shape3 a1 a2 a3 f" "int i < a1" "int j < a2" "int k < a3"
  shows "get3 (set3 f i j k v) i j k = v"
proof -
  have i: "i < length f" using assms by (simp add: shape3_def)
  then have j: "j < length (f ! i)" using assms shape3_row by fastforce
  then have k: "k < length (f ! i ! j)" using assms shape3_col i by fastforce
  show ?thesis using i j k by (simp add: get3_def set3_def)
qed

lemma get3_set3_other:
  assumes "(i', j', k') \<noteq> (i, j, k)"
  shows "get3 (set3 f i j k v) i' j' k' = get3 f i' j' k'"
  using assms by (auto simp: get3_def set3_def nth_update_cases)

lemma shape3_set3: "shape3 a1 a2 a3 f \<Longrightarrow> shape3 a1 a2 a3 (set3 f i j k v)"
  unfolding shape3_def list_all_length set3_def
  by (auto simp: nth_update_cases)

lemma shape3_zeros3: "shape3 a1 a2 a3 (zeros3 a1 a2 a3)"
  by (simp add: shape3_def zeros3_def list_all_length)

lemma get3_zeros3:
  "int i < a1 \<Longrightarrow> int j < a2 \<Longrightarrow> int k < a3 \<Longrightarrow> get3 (zeros3 a1 a2 a3) i j k = Fin 0"
  by (simp add: get3_def zeros3_def)

lemma vid_nat:
  assumes "0 \<le> ny grid" "0 \<le> nz grid"
  shows "vid grid i j k = (i * nat (ny grid) + j) * nat (nz grid) + k"
proof -
  obtain b1 c1 where bc: "ny grid = int b1" "nz grid = int c1"
    using assms nonneg_int_cases by metis
  have "idx3 (int i) (int j) (int k) (int b1) (int c1) = int ((i * b1 + j) * c1 + k)"
    by (simp add: idx3_def algebra_simps)
  then show ?thesis unfolding vid_def bc by (simp only: nat_int)
qed

lemma vid_inj:
  assumes "0 \<le> ny grid" "0 \<le> nz grid"
    and "int j < ny grid" "int k < nz grid" "int j' < ny grid" "int k' < nz grid"
    and "vid grid i j k = vid grid i' j' k'"
  shows "i = i' \<and> j = j' \<and> k = k'"
proof -
  let ?b = "nat (ny grid)" and ?c = "nat (nz grid)"
  have lt: "j < ?b" "k < ?c" "j' < ?b" "k' < ?c" using assms by auto
  have e: "(i * ?b + j) * ?c + k = (i' * ?b + j') * ?c + k'"
    using assms(7) vid_nat[OF assms(1,2)] by simp
  have "((i * ?b + j) * ?c + k) mod ?c = k" "((i' * ?b + j') * ?c + k') mod ?c = k'"
    using lt by simp_all
  then have k: "k = k'" using e by simp
  have "((i * ?b + j) * ?c + k) div ?c = i * ?b + j"
       "((i' * ?b + j') * ?c + k') div ?c = i' * ?b + j'"
    using lt by simp_all
  then have e2: "i * ?b + j = i' * ?b + j'" using e by simp
  have "(i * ?b + j) mod ?b = j" "(i' * ?b + j') mod ?b = j'" using lt by simp_all
  then have j: "j = j'" using e2 by simp
  have "(i * ?b + j) div ?b = i" "(i' * ?b + j') div ?b = i'" using lt by simp_all
  then have "i = i'" using e2 by simp
  then show ?thesis using j k by simp
qed

lemma vid_less:
  assumes "0 \<le> nx grid" "0 \<le> ny grid" "0 \<le> nz grid" and "in_grid grid i j k"
  shows "vid grid i j k < nat (nx grid * ny grid * nz grid)"
proof -
  let ?a = "nat (nx grid)" and ?b = "nat (ny grid)" and ?c = "nat (nz grid)"
  have lt: "i < ?a" "j < ?b" "k < ?c" using assms by (auto simp: in_grid_def)
  have "Suc i * ?b \<le> ?a * ?b" using lt(1) by (intro mult_le_mono1) simp
  then have "Suc (i * ?b + j) \<le> ?a * ?b" using lt(2) by simp
  then have "Suc (i * ?b + j) * ?c \<le> ?a * ?b * ?c" by (intro mult_le_mono1)
  then have "(i * ?b + j) * ?c + k < ?a * ?b * ?c" using lt(3) by simp
  moreover have "nat (nx grid * ny grid * nz grid) = ?a * ?b * ?c"
    using assms(1-3) by (simp add: nat_mult_distrib)
  ultimately show ?thesis using vid_nat[OF assms(2,3)] by simp
qed

lemma vid_cong: "ny t = ny s \<Longrightarrow> nz t = nz s \<Longrightarrow> vid t = vid s"
  by (intro ext) (simp add: vid_def)

lemma in_grid_cong: "nx t = nx s \<Longrightarrow> ny t = ny s \<Longrightarrow> nz t = nz s \<Longrightarrow> in_grid t = in_grid s"
  by (intro ext) (simp add: in_grid_def)

lemma map_update_same:
  "f v' = f (xs ! i) \<Longrightarrow> map f (xs[i := v']) = map f xs"
  by (rule nth_equalityI) (auto simp: nth_update_cases)

lemma pos_set_color: "pos (set_color c v) = pos v"
  by (cases c) (simp add: pos_def set_color_def)

lemma pos_nth:
  "map pos xs = map pos ys \<Longrightarrow> n < length ys \<Longrightarrow> pos (xs ! n) = pos (ys ! n)"
  by (metis length_map nth_map)

lemma set_color_pos [simp]: "x (set_color c v) = x v" "y (set_color c v) = y v" "z (set_color c v) = z v"
  by (cases c; simp add: set_color_def)+


section \<open>The lattice factory, cell by cell\<close>

lemma CreateGrid_eq:
  "0 \<le> a1 \<Longrightarrow> 0 \<le> a2 \<Longrightarrow> 0 \<le> a3 \<Longrightarrow>
   CreateGrid a1 a2 a3 scale = Some (for3 a1 a2 a3 (place_vertex scale) (fresh a1 a2 a3))"
  by (simp add: CreateGrid_def Grille_init_def fresh_def)

lemma place_vertex_frame:
  "place_vertex scale i j k t\<lparr>vertices := []\<rparr> = t\<lparr>vertices := []\<rparr>"
  "length (vertices (place_vertex scale i j k t)) = length (vertices t)"
  "nx (place_vertex scale i j k t) = nx t" "ny (place_vertex scale i j k t) = ny t"
  "nz (place_vertex scale i j k t) = nz t"
  "vertices (place_vertex scale i j k t) = (vertices t)[vid t i j k := placed scale i j k]"
  by (simp_all add: place_vertex_def Let_def placed_def)

lemma for3_place_vertex:
  fixes scale :: cfloat
  assumes nn: "0 \<le> a1" "0 \<le> a2" "0 \<le> a3"
  defines "res \<equiv> for3 a1 a2 a3 (place_vertex scale) (fresh a1 a2 a3)"
  shows "length (vertices res) = nat (a1 * a2 * a3) \<and>
         res\<lparr>vertices := []\<rparr> = (fresh a1 a2 a3)\<lparr>vertices := []\<rparr> \<and>
         (\<forall>i j k. int i < a1 \<and> int j < a2 \<and> int k < a3 \<longrightarrow>
            vertices res ! nat (idx3 (int i) (int j) (int k) a2 a3) = placed scale i j k)"
proof -
  let ?s = "fresh a1 a2 a3"
  let ?cs = "cells a1 a2 a3"
  let ?D = "set ?cs"
  let ?Inv = "\<lambda>t. length (vertices t) = nat (a1 * a2 * a3) \<and> nx t = a1 \<and> ny t = a2 \<and> nz t = a3"
  let ?body = "\<lambda>(i, j, k). place_vertex scale i j k"
  let ?slot = "\<lambda>(i, j, k) t. vertices t ! vid ?s i j k"
  let ?rd = "\<lambda>t. t\<lparr>vertices := []\<rparr>"
  have dims: "nx ?s = a1" "ny ?s = a2" "nz ?s = a3" by (simp_all add: fresh_def)
  have vid_eq: "vid t = vid ?s" if "?Inv t" for t
    using that by (intro ext) (simp add: vid_def dims)
  have lt: "vid ?s i j k < nat (a1 * a2 * a3)" if "(i, j, k) \<in> ?D" for i j k
    using vid_less[of ?s i j k] that nn by (simp add: dims in_grid_def set_cells)
  have ne: "vid ?s i j k \<noteq> vid ?s i' j' k'"
    if "(i, j, k) \<in> ?D" "(i', j', k') \<in> ?D" "(i', j', k') \<noteq> (i, j, k)" for i j k i' j' k'
    using vid_inj[of ?s j k j' k' i i'] that nn by (auto simp: dims set_cells)
  have frame: "?Inv (?body c t) \<and> ?rd (?body c t) = ?rd t \<and>
        (\<forall>d\<in>?D. d \<noteq> c \<longrightarrow> ?slot d (?body c t) = ?slot d t)" if "c \<in> ?D" "?Inv t" for c t
  proof -
    obtain i j k where c: "c = (i, j, k)" by (cases c) auto
    have "?slot d (place_vertex scale i j k t) = ?slot d t" if "d \<noteq> c" "d \<in> ?D" for d
    proof -
      obtain i' j' k' where d: "d = (i', j', k')" by (cases d) auto
      show ?thesis
        using ne[of i j k i' j' k'] that \<open>c \<in> ?D\<close> vid_eq[OF \<open>?Inv t\<close>]
        unfolding c d by (simp add: place_vertex_frame)
    qed
    then show ?thesis using that(2) unfolding c
      by (simp add: place_vertex_frame)
  qed
  have own: "?slot (i, j, k) (place_vertex scale i j k t) = placed scale i j k"
    if "(i, j, k) \<in> ?D" "?Inv t" for i j k t
    using lt[OF that(1)] that(2) vid_eq[OF that(2)] by (simp add: place_vertex_frame)
  have loc: "?slot c (?body c t') = ?slot c (?body c t)"
    if "c \<in> ?D" "?Inv t" "?Inv t'" "?rd t' = ?rd t" "?slot c t' = ?slot c t" for c t t'
  proof -
    obtain i j k where c: "c = (i, j, k)" by (cases c) auto
    show ?thesis using own[of i j k t] own[of i j k t'] that unfolding c by simp
  qed
  have inv0: "?Inv ?s" by (simp add: fresh_def)
  have res: "?Inv (fold ?body ?cs ?s) \<and> ?rd (fold ?body ?cs ?s) = ?rd ?s \<and>
        (\<forall>d\<in>?D. ?slot d (fold ?body ?cs ?s) =
           (if d \<in> ?D then ?slot d (?body d ?s) else ?slot d ?s))"
    by (rule fold_own_slot[where D = ?D and Inv = ?Inv and rd = ?rd and slot = ?slot and body = ?body,
          OF frame loc distinct_cells]) (auto simp: inv0)
  have "vertices res ! nat (idx3 (int i) (int j) (int k) a2 a3) = placed scale i j k"
    if "int i < a1 \<and> int j < a2 \<and> int k < a3" for i j k
  proof -
    have m: "(i, j, k) \<in> ?D" using that by (simp add: set_cells)
    from res m have "?slot (i, j, k) res = ?slot (i, j, k) (place_vertex scale i j k ?s)"
      unfolding res_def for3_cells by fastforce
    then show ?thesis using own[OF m inv0] by (simp add: vid_def dims)
  qed
  then show ?thesis using res unfolding res_def for3_cells by simp
qed

lemma for3_place_vertex_colors:
  "\<forall>v\<in>set (vertices (for3 a1 a2 a3 (place_vertex scale) (fresh a1 a2 a3))).
      r v = Fin 0 \<and> g v = Fin 0 \<and> b v = Fin 0"
  unfolding for3_cells
proof (rule fold_invariant[where P = "\<lambda>t. \<forall>v\<in>set (vertices t). r v = Fin 0 \<and> g v = Fin 0 \<and> b v = Fin 0"])
  show "\<forall>v\<in>set (vertices (fresh a1 a2 a3)). r v = Fin 0 \<and> g v = Fin 0 \<and> b v = Fin 0"
    by (simp add: fresh_def Vertex0_def)
next
  fix c :: "nat \<times> nat \<times> nat" and t :: Grille
  assume a: "\<forall>v\<in>set (vertices t). r v = Fin 0 \<and> g v = Fin 0 \<and> b v = Fin 0"
  obtain i j k where c: "c = (i, j, k)" by (cases c) auto
  have "set ((vertices t)[vid t i j k := placed scale i j k]) \<subseteq> insert (placed scale i j k) (set (vertices t))"
    by (rule set_update_subset_insert)
  then show "\<forall>v\<in>set (vertices ((case c of (i, j, k) \<Rightarrow> place_vertex scale i j k) t)).
      r v = Fin 0 \<and> g v = Fin 0 \<and> b v = Fin 0"
    using a unfolding c by (auto simp: place_vertex_frame placed_def)
qed

lemma CreateGrid_fields:
  assumes nn: "0 \<le> a1" "0 \<le> a2" "0 \<le> a3"
  shows "\<exists>grid. CreateGrid a1 a2 a3 scale = Some grid \<and>
           grid\<lparr>vertices := []\<rparr> = (fresh a1 a2 a3)\<lparr>vertices := []\<rparr> \<and>
           length (vertices grid) = nat (a1 * a2 * a3) \<and>
           (\<forall>i j k. int i < a1 \<and> int j < a2 \<and> int k < a3 \<longrightarrow>
              vertices grid ! nat (idx3 (int i) (int j) (int k) a2 a3) = placed scale i j k) \<and>
           (\<forall>v\<in>set (vertices grid). r v = Fin 0 \<and> g v = Fin 0 \<and> b v = Fin 0)"
  using for3_place_vertex[OF nn, of scale] for3_place_vertex_colors[of a1 a2 a3 scale]
  unfolding CreateGrid_eq[OF nn] by simp

lemma total_zero:
  assumes "vx s = zeros3 (nx s) (ny s) (nz s)" "vy s = zeros3 (nx s) (ny s) (nz s)"
    "vz s = zeros3 (nx s) (ny s) (nz s)"
  shows "for3 (nx s) (ny s) (nz s) (total_add s) (Fin 0, Fin 0, Fin 0) = (Fin 0, Fin 0, Fin 0)"
  unfolding for3_cells
proof (rule fold_invariant[where P = "\<lambda>t. t = (Fin 0, Fin 0, Fin 0)"])
  fix c :: "nat \<times> nat \<times> nat" and t :: vec3
  assume c: "c \<in> set (cells (nx s) (ny s) (nz s))" and t: "t = (Fin 0, Fin 0, Fin 0)"
  obtain i j k where cc: "c = (i, j, k)" by (cases c) auto
  have "vel_at s i j k = (Fin 0, Fin 0, Fin 0)"
    using c unfolding cc by (simp add: vel_at_def assms get3_zeros3 set_cells)
  then show "(case c of (i, j, k) \<Rightarrow> total_add s i j k) t = (Fin 0, Fin 0, Fin 0)"
    unfolding cc t by (simp add: total_add_def vadd_def)
qed simp


section \<open>The phases, cell by cell\<close>

lemma reset_acc_frame:
  "wf_grid s \<Longrightarrow> wf_grid (reset_acc i j k s)"
  "nx (reset_acc i j k s) = nx s" "ny (reset_acc i j k s) = ny s" "nz (reset_acc i j k s) = nz s"
  "vertices (reset_acc i j k s) = vertices s"
  "vx (reset_acc i j k s) = vx s" "vy (reset_acc i j k s) = vy s" "vz (reset_acc i j k s) = vz s"
  "div_f (reset_acc i j k s) = div_f s"
  by (simp_all add: wf_grid_def reset_acc_def shape3_set3)

lemma phase0_frame:
  assumes "wf_grid s"
  shows "wf_grid (phase0 s) \<and> nx (phase0 s) = nx s \<and> ny (phase0 s) = ny s \<and> nz (phase0 s) = nz s \<and>
         vertices (phase0 s) = vertices s \<and>
         vx (phase0 s) = vx s \<and> vy (phase0 s) = vy s \<and> vz (phase0 s) = vz s"
  unfolding phase0_def for3_cells
  by (rule fold_invariant[where P = "\<lambda>t. wf_grid t \<and> nx t = nx s \<and> ny t = ny s \<and> nz t = nz s \<and>
         vertices t = vertices s \<and> vx t = vx s \<and> vy t = vy s \<and> vz t = vz s"])
     (auto simp: reset_acc_frame assms)

lemma density_cell_frame:
  "wf_grid s \<Longrightarrow> wf_grid (density_cell i j k s)"
  "density_cell i j k s\<lparr>div_f := []\<rparr> = s\<lparr>div_f := []\<rparr>"
  "nx (density_cell i j k s) = nx s" "ny (density_cell i j k s) = ny s"
  "nz (density_cell i j k s) = nz s"
  by (simp_all add: wf_grid_def density_cell_def shape3_set3)

lemma density_of_cong:
  assumes "vertices s' = vertices s" "nx s' = nx s" "ny s' = ny s" "nz s' = nz s"
  shows "density_of s' i j k = density_of s i j k"
  unfolding density_of_def vid_def assms ..

lemma rd_div_eq:
  "s'\<lparr>div_f := []\<rparr> = s\<lparr>div_f := []\<rparr> \<Longrightarrow>
     vertices s' = vertices s \<and> nx s' = nx s \<and> ny s' = ny s \<and> nz s' = nz s \<and>
     vx s' = vx s \<and> vy s' = vy s \<and> vz s' = vz s \<and>
     ax s' = ax s \<and> ay s' = ay s \<and> az s' = az s \<and> pressure s' = pressure s"
  by (cases s, cases s') simp

lemma density_pass_result:
  assumes wf: "wf_grid s"
  shows "wf_grid (density_pass s) \<and> density_pass s\<lparr>div_f := []\<rparr> = s\<lparr>div_f := []\<rparr> \<and>
         (\<forall>i j k. in_grid s i j k \<longrightarrow> get3 (div_f (density_pass s)) i j k = density_of s i j k)"
proof -
  let ?D = "set (cells (nx s) (ny s) (nz s))"
  let ?Inv = "\<lambda>t. wf_grid t \<and> nx t = nx s \<and> ny t = ny s \<and> nz t = nz s"
  let ?body = "\<lambda>(i, j, k). density_cell i j k"
  let ?slot = "\<lambda>(i, j, k) t. get3 (div_f t) i j k"
  let ?rd = "\<lambda>t. t\<lparr>div_f := []\<rparr>"
  have frame: "?Inv (?body c t) \<and> ?rd (?body c t) = ?rd t \<and>
        (\<forall>d\<in>?D. d \<noteq> c \<longrightarrow> ?slot d (?body c t) = ?slot d t)" if "c \<in> ?D" "?Inv t" for c t
  proof -
    obtain i j k where c: "c = (i, j, k)" by (cases c) auto
    have "?slot d (density_cell i j k t) = ?slot d t" if "d \<noteq> c" for d
    proof -
      obtain i' j' k' where d: "d = (i', j', k')" by (cases d) auto
      show ?thesis using that unfolding c d
        by (simp add: density_cell_def get3_set3_other)
    qed
    then show ?thesis using that(2) unfolding c
      by (simp add: density_cell_frame)
  qed
  have loc: "?slot c (?body c t') = ?slot c (?body c t)"
    if "c \<in> ?D" "?Inv t" "?Inv t'" "?rd t' = ?rd t" "?slot c t' = ?slot c t" for c t t'
  proof -
    obtain i j k where c: "c = (i, j, k)" by (cases c) auto
    have rg: "int i < nx s" "int j < ny s" "int k < nz s" using that(1) c by (auto simp: set_cells)
    have sh: "shape3 (nx s) (ny s) (nz s) (div_f t)" "shape3 (nx s) (ny s) (nz s) (div_f t')"
      using that(2,3) by (auto simp: wf_grid_def)
    have "density_of t' i j k = density_of t i j k"
      using rd_div_eq[OF that(4)] by (intro density_of_cong) auto
    then show ?thesis
      using rg sh by (simp add: c density_cell_def get3_set3_same)
  qed
  have res: "?Inv (fold ?body (cells (nx s) (ny s) (nz s)) s) \<and>
        ?rd (fold ?body (cells (nx s) (ny s) (nz s)) s) = ?rd s \<and>
        (\<forall>d\<in>?D. ?slot d (fold ?body (cells (nx s) (ny s) (nz s)) s) =
           (if d \<in> ?D then ?slot d (?body d s) else ?slot d s))"
    by (rule fold_own_slot[where D = ?D and Inv = ?Inv and rd = ?rd and slot = ?slot and body = ?body,
          OF frame loc distinct_cells]) (auto simp: wf)
  have "get3 (div_f (density_pass s)) i j k = density_of s i j k" if "in_grid s i j k" for i j k
  proof -
    have m: "(i, j, k) \<in> ?D" using that by (simp add: set_cells in_grid_def)
    have sh: "shape3 (nx s) (ny s) (nz s) (div_f s)" using wf by (simp add: wf_grid_def)
    from res m have "get3 (div_f (density_pass s)) i j k = get3 (div_f (density_cell i j k s)) i j k"
      unfolding density_pass_def for3_cells by fastforce
    then show ?thesis using that sh
      by (simp add: density_cell_def get3_set3_same in_grid_def)
  qed
  then show ?thesis using res unfolding density_pass_def for3_cells by simp
qed

lemma density_pass_frame:
  assumes "wf_grid s"
  shows "wf_grid (density_pass s)" "nx (density_pass s) = nx s" "ny (density_pass s) = ny s"
    "nz (density_pass s) = nz s" "vertices (density_pass s) = vertices s"
    "vx (density_pass s) = vx s" "vy (density_pass s) = vy s" "vz (density_pass s) = vz s"
  using density_pass_result[OF assms] rd_div_eq[of "density_pass s" s] by simp_all

lemma force_cell_frame:
  assumes "wf_grid s"
  shows "wf_grid (force_cell rest p sp i j k s)"
    "nx (force_cell rest p sp i j k s) = nx s" "ny (force_cell rest p sp i j k s) = ny s"
    "nz (force_cell rest p sp i j k s) = nz s"
    "map pos (vertices (force_cell rest p sp i j k s)) = map pos (vertices s)"
    "vx (force_cell rest p sp i j k s) = vx s" "vy (force_cell rest p sp i j k s) = vy s"
    "vz (force_cell rest p sp i j k s) = vz s" "div_f (force_cell rest p sp i j k s) = div_f s"
  using assms
  by (simp_all add: force_cell_def Let_def wf_grid_def shape3_set3 map_update_same pos_set_color)

lemma force_pass_frame:
  assumes "wf_grid s"
  shows "wf_grid (force_pass rest p sp s) \<and>
         nx (force_pass rest p sp s) = nx s \<and> ny (force_pass rest p sp s) = ny s \<and>
         nz (force_pass rest p sp s) = nz s \<and>
         map pos (vertices (force_pass rest p sp s)) = map pos (vertices s) \<and>
         vx (force_pass rest p sp s) = vx s \<and> vy (force_pass rest p sp s) = vy s \<and>
         vz (force_pass rest p sp s) = vz s \<and> div_f (force_pass rest p sp s) = div_f s"
  unfolding force_pass_def for3_cells
  by (rule fold_invariant[where P = "\<lambda>t. wf_grid t \<and> nx t = nx s \<and> ny t = ny s \<and> nz t = nz s \<and>
         map pos (vertices t) = map pos (vertices s) \<and> vx t = vx s \<and> vy t = vy s \<and> vz t = vz s
         \<and> div_f t = div_f s"])
     (auto simp: force_cell_frame assms)

lemma integrate_cell_frame:
  assumes "wf_grid s"
  shows "wf_grid (integrate_cell dt sp i j k s)"
    "nx (integrate_cell dt sp i j k s) = nx s" "ny (integrate_cell dt sp i j k s) = ny s"
    "nz (integrate_cell dt sp i j k s) = nz s"
    "ax (integrate_cell dt sp i j k s) = ax s" "ay (integrate_cell dt sp i j k s) = ay s"
    "az (integrate_cell dt sp i j k s) = az s" "div_f (integrate_cell dt sp i j k s) = div_f s"
  using assms
  by (simp_all add: integrate_cell_def Let_def wf_grid_def shape3_set3)

lemma integrate_cell_own:
  assumes "wf_grid s" "in_grid s i j k"
  shows "(vertices (integrate_cell dt sp i j k s) ! vid s i j k, vel_at (integrate_cell dt sp i j k s) i j k)
         = integrate_particle dt sp (vertices s ! vid s i j k) (vel_at s i j k) (acc_at s i j k)"
proof -
  have lt: "vid s i j k < length (vertices s)"
    using assms vid_less[of s i j k] by (simp add: wf_grid_def)
  have sh: "shape3 (nx s) (ny s) (nz s) (vx s)" "shape3 (nx s) (ny s) (nz s) (vy s)"
    "shape3 (nx s) (ny s) (nz s) (vz s)" using assms by (auto simp: wf_grid_def)
  have rg: "int i < nx s" "int j < ny s" "int k < nz s" using assms by (auto simp: in_grid_def)
  show ?thesis
    using lt by (simp add: integrate_cell_def Let_def vel_at_def get3_set3_same[OF sh(1) rg]
        get3_set3_same[OF sh(2) rg] get3_set3_same[OF sh(3) rg])
qed

lemma integrate_cell_other:
  assumes "wf_grid s" "in_grid s i j k" "in_grid s i' j' k'" "(i', j', k') \<noteq> (i, j, k)"
  shows "vertices (integrate_cell dt sp i j k s) ! vid s i' j' k' = vertices s ! vid s i' j' k'"
    "vel_at (integrate_cell dt sp i j k s) i' j' k' = vel_at s i' j' k'"
proof -
  have "vid s i j k \<noteq> vid s i' j' k'"
    using assms vid_inj[of s j k j' k' i i'] by (auto simp: wf_grid_def in_grid_def)
  then show "vertices (integrate_cell dt sp i j k s) ! vid s i' j' k' = vertices s ! vid s i' j' k'"
    by (simp add: integrate_cell_def Let_def)
  show "vel_at (integrate_cell dt sp i j k s) i' j' k' = vel_at s i' j' k'"
    using assms(4) by (simp add: integrate_cell_def Let_def vel_at_def get3_set3_other)
qed

lemma integrate_pass_result:
  assumes wf: "wf_grid s"
  shows "wf_grid (integrate_pass dt sp s) \<and>
         nx (integrate_pass dt sp s) = nx s \<and> ny (integrate_pass dt sp s) = ny s \<and>
         nz (integrate_pass dt sp s) = nz s \<and>
         (\<forall>i j k. in_grid s i j k \<longrightarrow>
            (vertices (integrate_pass dt sp s) ! vid s i j k, vel_at (integrate_pass dt sp s) i j k)
            = integrate_particle dt sp (vertices s ! vid s i j k) (vel_at s i j k) (acc_at s i j k)) \<and>
         ax (integrate_pass dt sp s) = ax s \<and> ay (integrate_pass dt sp s) = ay s \<and>
         az (integrate_pass dt sp s) = az s"
proof -
  let ?cs = "cells (nx s) (ny s) (nz s)"
  let ?D = "set ?cs"
  let ?Inv = "\<lambda>t. wf_grid t \<and> nx t = nx s \<and> ny t = ny s \<and> nz t = nz s"
  let ?body = "\<lambda>(i, j, k). integrate_cell dt sp i j k"
  let ?slot = "\<lambda>(i, j, k) t. (vertices t ! vid s i j k, vel_at t i j k)"
  let ?rd = "\<lambda>t. (ax t, ay t, az t)"
  have vid_eq: "vid t = vid s" if "?Inv t" for t
    using that by (intro ext) (simp add: vid_def)
  have ing: "in_grid t i j k \<longleftrightarrow> (i, j, k) \<in> ?D" if "?Inv t" for t i j k
    using that by (simp add: in_grid_def set_cells)
  have frame: "?Inv (?body c t) \<and> ?rd (?body c t) = ?rd t \<and>
        (\<forall>d\<in>?D. d \<noteq> c \<longrightarrow> ?slot d (?body c t) = ?slot d t)" if "c \<in> ?D" "?Inv t" for c t
  proof -
    obtain i j k where c: "c = (i, j, k)" by (cases c) auto
    have "?slot d (integrate_cell dt sp i j k t) = ?slot d t" if "d \<noteq> c" "d \<in> ?D" for d
    proof -
      obtain i' j' k' where d: "d = (i', j', k')" by (cases d) auto
      show ?thesis
        using integrate_cell_other[of t i j k i' j' k' dt sp] that \<open>c \<in> ?D\<close> \<open>?Inv t\<close>
          ing[OF \<open>?Inv t\<close>] vid_eq[OF \<open>?Inv t\<close>]
        unfolding c d by simp
    qed
    then show ?thesis using that(2) unfolding c
      by (simp add: integrate_cell_frame)
  qed
  have own: "?slot (i, j, k) (integrate_cell dt sp i j k t) =
        integrate_particle dt sp (vertices t ! vid s i j k) (vel_at t i j k) (acc_at t i j k)"
    if "(i, j, k) \<in> ?D" "?Inv t" for i j k t
    using integrate_cell_own[of t i j k dt sp] that ing[OF that(2)] vid_eq[OF that(2)] by simp
  have loc: "?slot c (?body c t') = ?slot c (?body c t)"
    if "c \<in> ?D" "?Inv t" "?Inv t'" "?rd t' = ?rd t" "?slot c t' = ?slot c t" for c t t'
  proof -
    obtain i j k where c: "c = (i, j, k)" by (cases c) auto
    have "acc_at t' i j k = acc_at t i j k" using that(4) by (simp add: acc_at_def)
    then show ?thesis
      using own[of i j k t] own[of i j k t'] that unfolding c by simp
  qed
  have res: "?Inv (fold ?body ?cs s) \<and> ?rd (fold ?body ?cs s) = ?rd s \<and>
        (\<forall>d\<in>?D. ?slot d (fold ?body ?cs s) =
           (if d \<in> ?D then ?slot d (?body d s) else ?slot d s))"
    by (rule fold_own_slot[where D = ?D and Inv = ?Inv and rd = ?rd and slot = ?slot and body = ?body,
          OF frame loc distinct_cells]) (auto simp: wf)
  have "(vertices (integrate_pass dt sp s) ! vid s i j k, vel_at (integrate_pass dt sp s) i j k)
            = integrate_particle dt sp (vertices s ! vid s i j k) (vel_at s i j k) (acc_at s i j k)"
    if "in_grid s i j k" for i j k
  proof -
    have m: "(i, j, k) \<in> ?D" using that by (simp add: set_cells in_grid_def)
    from res m have "?slot (i, j, k) (integrate_pass dt sp s) = ?slot (i, j, k) (integrate_cell dt sp i j k s)"
      unfolding integrate_pass_def for3_cells by fastforce
    then show ?thesis using own[OF m, of s] wf by simp
  qed
  then show ?thesis using res unfolding integrate_pass_def for3_cells by simp
qed


section \<open>Densities and pressure terms\<close>

lemma density_add_spec:
  "density_add v n d = (if spec_near v n then fadd d (spec_kernel v n) else d)"
  by (simp add: density_add_def spec_near_def spec_kernel_def spec_sq_dist_def Let_def fgt_def)

lemma density_of_spec: "density_of s i j k = spec_density s i j k"
proof -
  let ?A = "vertices s ! vid s i j k"
  have body: "(\<lambda>(ii, jj, kk) density.
           if ii = i \<and> jj = j \<and> kk = k then density
           else density_add ?A (vertices s ! vid s ii jj kk) density) =
        (\<lambda>c acc. if c = (i, j, k) then acc
           else if (case c of (ii, jj, kk) \<Rightarrow> spec_near ?A (vertices s ! vid s ii jj kk))
                then fadd acc (case c of (ii, jj, kk) \<Rightarrow> spec_kernel ?A (vertices s ! vid s ii jj kk))
                else acc)"
  proof (intro ext)
    fix c :: "nat \<times> nat \<times> nat" and acc :: cfloat
    obtain ii jj kk where c: "c = (ii, jj, kk)" by (cases c) auto
    show "(case c of (ii, jj, kk) \<Rightarrow> \<lambda>density.
           if ii = i \<and> jj = j \<and> kk = k then density
           else density_add ?A (vertices s ! vid s ii jj kk) density) acc =
        (if c = (i, j, k) then acc
           else if (case c of (ii, jj, kk) \<Rightarrow> spec_near ?A (vertices s ! vid s ii jj kk))
                then fadd acc (case c of (ii, jj, kk) \<Rightarrow> spec_kernel ?A (vertices s ! vid s ii jj kk))
                else acc)"
      unfolding c by (simp add: density_add_spec)
  qed
  have flt': "(\<lambda>c. c \<noteq> (i, j, k) \<and> (case c of (ii, jj, kk) \<Rightarrow> spec_near ?A (vertices s ! vid s ii jj kk)))
       = (\<lambda>(ii, jj, kk). (ii, jj, kk) \<noteq> (i, j, k) \<and> spec_near ?A (vertices s ! vid s ii jj kk))"
    by (intro ext) auto
  show ?thesis
    unfolding density_of_def Let_def for3_cells body fold_skip_filter spec_density_def flt' ..
qed

lemma spec_kernel_finite: "spec_near v n \<Longrightarrow> is_finite (spec_kernel v n)"
  unfolding spec_near_def spec_kernel_def
  by (cases "spec_sq_dist v n") (auto simp: h_def fsub_def)

lemma spec_density_finite: "is_finite (spec_density s i j k)"
  unfolding spec_density_def
  by (rule foldl_fadd_finite) (auto simp: spec_kernel_finite)

lemma spec_density_isolated:
  assumes "\<forall>ii jj kk. in_grid s ii jj kk \<and> (ii, jj, kk) \<noteq> (i, j, k) \<longrightarrow>
             \<not> spec_near (vertices s ! vid s i j k) (vertices s ! vid s ii jj kk)"
  shows "spec_density s i j k = Fin 0"
proof -
  have "filter (\<lambda>(ii, jj, kk). (ii, jj, kk) \<noteq> (i, j, k) \<and>
                      spec_near (vertices s ! vid s i j k) (vertices s ! vid s ii jj kk))
             (cells (nx s) (ny s) (nz s)) = []"
    using assms by (auto simp: filter_empty_conv set_cells in_grid_def)
  then show ?thesis by (simp add: spec_density_def)
qed

lemma spec_pos_cong:
  assumes "pos A' = pos A" "pos B' = pos B"
  shows "spec_near A' B' = spec_near A B" "spec_kernel A' B' = spec_kernel A B"
  using assms by (simp_all add: pos_def spec_near_def spec_kernel_def spec_sq_dist_def)

lemma spec_density_cong:
  assumes wf: "wf_grid grid" and ing: "in_grid grid i j k"
    and eq: "nx grid' = nx grid" "ny grid' = ny grid" "nz grid' = nz grid"
      "map pos (vertices grid') = map pos (vertices grid)"
  shows "spec_density grid' i j k = spec_density grid i j k"
proof -
  have v: "vid grid' = vid grid" using eq by (intro vid_cong) simp_all
  have p: "pos (vertices grid' ! vid grid a1 a2 a3) = pos (vertices grid ! vid grid a1 a2 a3)"
    if "in_grid grid a1 a2 a3" for a1 a2 a3
    using vid_less[of grid a1 a2 a3] wf that eq(4) by (intro pos_nth) (simp_all add: wf_grid_def)
  have c: "(a1, a2, a3) \<in> set (cells (nx grid) (ny grid) (nz grid)) \<Longrightarrow> in_grid grid a1 a2 a3"
    for a1 a2 a3 by (simp add: set_cells in_grid_def)
  have f: "filter (\<lambda>(ii, jj, kk). (ii, jj, kk) \<noteq> (i, j, k) \<and>
                spec_near (vertices grid' ! vid grid i j k) (vertices grid' ! vid grid ii jj kk))
             (cells (nx grid) (ny grid) (nz grid)) =
           filter (\<lambda>(ii, jj, kk). (ii, jj, kk) \<noteq> (i, j, k) \<and>
                spec_near (vertices grid ! vid grid i j k) (vertices grid ! vid grid ii jj kk))
             (cells (nx grid) (ny grid) (nz grid))"
    by (rule filter_cong[OF refl]) (auto simp: spec_pos_cong(1)[OF p[OF ing] p[OF c]])
  have m: "map (\<lambda>(ii, jj, kk). spec_kernel (vertices grid' ! vid grid i j k) (vertices grid' ! vid grid ii jj kk)) cs
         = map (\<lambda>(ii, jj, kk). spec_kernel (vertices grid ! vid grid i j k) (vertices grid ! vid grid ii jj kk)) cs"
    if "set cs \<subseteq> set (cells (nx grid) (ny grid) (nz grid))" for cs
    using that by (intro map_cong[OF refl]) (auto simp: spec_pos_cong(2)[OF p[OF ing] p[OF c]])
  show ?thesis
    unfolding spec_density_def v eq(1-3) f by (rule arg_cong[where f = "foldl fadd (Fin 0)"], rule m) auto
qed

lemma dist_to_Fin:
  assumes "dist_to A B = Fin d"
  shows "\<exists>a1 a2 a3 b1 b2 b3. x A = Fin a1 \<and> y A = Fin a2 \<and> z A = Fin a3 \<and>
          x B = Fin b1 \<and> y B = Fin b2 \<and> z B = Fin b3 \<and>
          d = sqrt ((b1 - a1) * (b1 - a1) + (b2 - a2) * (b2 - a2) + (b3 - a3) * (b3 - a3))"
  using assms unfolding dist_to_def Let_def fsqrt_Fin_iff fadd_Fin_iff fmul_self_Fin_iff fsub_Fin_iff
  by auto

lemma press_term_opposite:
  assumes d: "dist_to A B = Fin d" "0 < d" and P: "is_finite PA" "is_finite PB"
  shows "vadd (press_term A PA B PB) (press_term B PB A PA) = (Fin 0, Fin 0, Fin 0)"
proof -
  from dist_to_Fin[OF d(1)] obtain a1 a2 a3 b1 b2 b3 where
    A: "x A = Fin a1" "y A = Fin a2" "z A = Fin a3" and
    B: "x B = Fin b1" "y B = Fin b2" "z B = Fin b3" and
    dd: "d = sqrt ((b1 - a1) * (b1 - a1) + (b2 - a2) * (b2 - a2) + (b3 - a3) * (b3 - a3))"
    by blast
  have sym: "sqrt ((a1 - b1) * (a1 - b1) + (a2 - b2) * (a2 - b2) + (a3 - b3) * (a3 - b3)) = d"
    unfolding dd by (rule arg_cong[where f = sqrt]) (simp add: algebra_simps)
  have nn: "0 \<le> (a1 - b1) * (a1 - b1) + (a2 - b2) * (a2 - b2) + (a3 - b3) * (a3 - b3)"
    by (intro add_nonneg_nonneg) simp_all
  have dBA: "dist_to B A = Fin d"
    using sym nn by (simp add: dist_to_def A B fsub_def not_less)
  obtain pa pb where PP: "PA = Fin pa" "PB = Fin pb"
    using P by (cases PA; cases PB) auto
  have d0: "d \<noteq> 0" using d(2) by simp
  show ?thesis
    using d0 by (simp add: press_term_def Let_def d(1) dBA A B PP vadd_def fsub_def h_def
        field_simps)
qed


section \<open>One step, particle by particle\<close>

lemma before_integration:
  fixes p sp :: bool
  assumes wf: "wf_grid grid"
  defines "s3 \<equiv> force_pass (restDensity grid) p sp (density_pass (phase0 grid))"
  shows "wf_grid s3" "nx s3 = nx grid" "ny s3 = ny grid" "nz s3 = nz grid"
    "vx s3 = vx grid" "vy s3 = vy grid" "vz s3 = vz grid"
    "map pos (vertices s3) = map pos (vertices grid)"
proof -
  note f0 = phase0_frame[OF wf]
  then have w1: "wf_grid (phase0 grid)" by simp
  note f1 = density_pass_frame[OF w1]
  note f2 = force_pass_frame[OF f1(1), of "restDensity grid" p sp]
  show "wf_grid s3" "nx s3 = nx grid" "ny s3 = ny grid" "nz s3 = nz grid"
    "vx s3 = vx grid" "vy s3 = vy grid" "vz s3 = vz grid"
    "map pos (vertices s3) = map pos (vertices grid)"
    using f0 f1 f2 unfolding s3_def by simp_all
qed

lemma UpdateGrid_particle:
  fixes p sp :: bool
  assumes wf: "wf_grid grid" and ing: "in_grid grid i j k"
  defines "s3 \<equiv> force_pass (restDensity grid) p sp (density_pass (phase0 grid))"
  shows "(vertices (UpdateGrid dt grid p sp) ! vid grid i j k, vel_at (UpdateGrid dt grid p sp) i j k)
           = integrate_particle dt sp (vertices s3 ! vid grid i j k) (vel_at grid i j k) (acc_at s3 i j k)"
    and "pos (vertices s3 ! vid grid i j k) = pos (vertices grid ! vid grid i j k)"
proof -
  note b = before_integration[OF wf, of p sp, folded s3_def]
  have v: "vid s3 = vid grid" using b by (intro vid_cong) simp_all
  have g: "in_grid s3 i j k" using ing b by (simp add: in_grid_def)
  have vel: "vel_at s3 i j k = vel_at grid i j k" using b by (simp add: vel_at_def)
  from integrate_pass_result[OF b(1), of dt sp] g
  have "(vertices (integrate_pass dt sp s3) ! vid s3 i j k, vel_at (integrate_pass dt sp s3) i j k)
            = integrate_particle dt sp (vertices s3 ! vid s3 i j k) (vel_at s3 i j k) (acc_at s3 i j k)"
    by blast
  then show "(vertices (UpdateGrid dt grid p sp) ! vid grid i j k, vel_at (UpdateGrid dt grid p sp) i j k)
           = integrate_particle dt sp (vertices s3 ! vid grid i j k) (vel_at grid i j k) (acc_at s3 i j k)"
    unfolding UpdateGrid_def s3_def[symmetric] v vel .
  have "vid grid i j k < length (vertices grid)"
    using vid_less[of grid i j k] wf ing by (simp add: wf_grid_def)
  then show "pos (vertices s3 ! vid grid i j k) = pos (vertices grid ! vid grid i j k)"
    using b(8) by (rule pos_nth[rotated])
qed

lemma UpdateGrid_frame:
  assumes wf: "wf_grid grid"
  shows "wf_grid (UpdateGrid dt grid p sp)" "nx (UpdateGrid dt grid p sp) = nx grid"
    "ny (UpdateGrid dt grid p sp) = ny grid" "nz (UpdateGrid dt grid p sp) = nz grid"
  using integrate_pass_result[OF before_integration(1)[OF wf, of p sp], of dt sp]
    before_integration(2-4)[OF wf, of p sp]
  unfolding UpdateGrid_def by simp_all

lemma run_steps_frame:
  assumes "wf_grid grid"
  shows "wf_grid (run_steps calls grid) \<and> nx (run_steps calls grid) = nx grid \<and>
         ny (run_steps calls grid) = ny grid \<and> nz (run_steps calls grid) = nz grid"
  unfolding run_steps_def
  by (rule fold_invariant[where P = "\<lambda>t. wf_grid t \<and> nx t = nx grid \<and> ny t = ny grid \<and> nz t = nz grid"])
     (auto simp: UpdateGrid_frame assms)

lemma bounce_X: "fst (bounce minX maxX (q, v)) = NaN \<or> within_bounds minX maxX (fst (bounce minX maxX (q, v)))"
  by (cases q) (auto simp: bounce_def within_bounds_def minX_def maxX_def epsilon_def fsub_def fgt_def)

lemma bounce_Y: "fst (bounce minY maxY (q, v)) = NaN \<or> within_bounds minY maxY (fst (bounce minY maxY (q, v)))"
  by (cases q) (auto simp: bounce_def within_bounds_def minY_def maxY_def epsilon_def fsub_def fgt_def)

lemma bounce_Z: "fst (bounce minZ maxZ (q, v)) = NaN \<or> within_bounds minZ maxZ (fst (bounce minZ maxZ (q, v)))"
  by (cases q) (auto simp: bounce_def within_bounds_def minZ_def maxZ_def epsilon_def fsub_def fgt_def)

lemma integrate_particle_contained:
  assumes "integrate_particle dt sp v vel acc = (v', vel')"
  shows "(x v' = NaN \<or> within_bounds minX maxX (x v')) \<and>
         (y v' = NaN \<or> within_bounds minY maxY (y v')) \<and>
         (z v' = NaN \<or> within_bounds minZ maxZ (z v'))"
proof -
  obtain v1 v2 v3 where vel: "vel = (v1, v2, v3)" by (cases vel) auto
  obtain c1 c2 c3 where acc: "acc = (c1, c2, c3)" by (cases acc) auto
  have "x v' = fst (bounce minX maxX (fadd (x v) (fmul (fadd v1 (fmul c1 dt)) dt), fadd v1 (fmul c1 dt)))"
       "y v' = fst (bounce minY maxY (fadd (y v) (fmul (fadd v2 (fmul c2 dt)) dt), fadd v2 (fmul c2 dt)))"
       "z v' = fst (bounce minZ maxZ (fadd (z v) (fmul (fadd v3 (fmul c3 dt)) dt), fadd v3 (fmul c3 dt)))"
    using assms unfolding vel acc integrate_particle_def Let_def
    by (auto split: if_splits)
  then show ?thesis
    using bounce_X bounce_Y bounce_Z by simp
qed

lemma step_contained:
  assumes wf: "wf_grid grid" and ing: "in_grid grid i j k"
  shows "(x (vertices (UpdateGrid dt grid p sp) ! vid grid i j k) = NaN \<or>
          within_bounds minX maxX (x (vertices (UpdateGrid dt grid p sp) ! vid grid i j k))) \<and>
         (y (vertices (UpdateGrid dt grid p sp) ! vid grid i j k) = NaN \<or>
          within_bounds minY maxY (y (vertices (UpdateGrid dt grid p sp) ! vid grid i j k))) \<and>
         (z (vertices (UpdateGrid dt grid p sp) ! vid grid i j k) = NaN \<or>
          within_bounds minZ maxZ (z (vertices (UpdateGrid dt grid p sp) ! vid grid i j k)))"
  using UpdateGrid_particle(1)[OF wf ing, of dt p sp, symmetric]
  by (rule integrate_particle_contained)


section \<open>The force phase, particle by particle\<close>

lemma pos_fields: "pos A' = pos A \<Longrightarrow> x A' = x A \<and> y A' = y A \<and> z A' = z A"
  by (simp add: pos_def)

lemma force_terms_pos_cong:
  assumes "pos A' = pos A" "pos B' = pos B"
  shows "dist_to A' B' = dist_to A B" "press_term A' PA B' PB = press_term A PA B PB"
    "visc_term A' vA B' vB = visc_term A vA B vB"
proof -
  note f = pos_fields[OF assms(1)] pos_fields[OF assms(2)]
  show d: "dist_to A' B' = dist_to A B" using f by (simp add: dist_to_def)
  show "press_term A' PA B' PB = press_term A PA B PB" using f d by (simp add: press_term_def)
  show "visc_term A' vA B' vB = visc_term A vA B vB" using d by (simp add: visc_term_def)
qed

lemma phase0_acc:
  assumes wf: "wf_grid s" and ing: "in_grid s i j k"
  shows "acc_at (phase0 s) i j k = (Fin 0, gravity, Fin 0)"
proof -
  let ?cs = "cells (nx s) (ny s) (nz s)"
  let ?D = "set ?cs"
  let ?Inv = "\<lambda>t. wf_grid t \<and> nx t = nx s \<and> ny t = ny s \<and> nz t = nz s"
  let ?body = "\<lambda>(i, j, k). reset_acc i j k"
  let ?slot = "\<lambda>(i, j, k) t. acc_at t i j k"
  let ?rd = "\<lambda>t :: Grille. ()"
  have own: "?slot (a1, a2, a3) (reset_acc a1 a2 a3 t) = (Fin 0, gravity, Fin 0)"
    if "(a1, a2, a3) \<in> ?D" "?Inv t" for a1 a2 a3 t
  proof -
    have rg: "int a1 < nx s" "int a2 < ny s" "int a3 < nz s" using that(1) by (auto simp: set_cells)
    have sh: "shape3 (nx s) (ny s) (nz s) (ax t)" "shape3 (nx s) (ny s) (nz s) (ay t)"
      "shape3 (nx s) (ny s) (nz s) (az t)" using that(2) by (auto simp: wf_grid_def)
    show ?thesis
      by (simp add: acc_at_def reset_acc_def get3_set3_same[OF sh(1) rg]
          get3_set3_same[OF sh(2) rg] get3_set3_same[OF sh(3) rg])
  qed
  have frame: "?Inv (?body c t) \<and> ?rd (?body c t) = ?rd t \<and>
        (\<forall>d\<in>?D. d \<noteq> c \<longrightarrow> ?slot d (?body c t) = ?slot d t)" if "c \<in> ?D" "?Inv t" for c t
  proof -
    obtain a1 a2 a3 where c: "c = (a1, a2, a3)" by (cases c) auto
    have "?slot d (reset_acc a1 a2 a3 t) = ?slot d t" if "d \<noteq> c" for d
    proof -
      obtain i' j' k' where d: "d = (i', j', k')" by (cases d) auto
      show ?thesis using that unfolding c d
        by (simp add: acc_at_def reset_acc_def get3_set3_other)
    qed
    then show ?thesis using that(2) unfolding c by (simp add: reset_acc_frame)
  qed
  have loc: "?slot c (?body c t') = ?slot c (?body c t)"
    if "c \<in> ?D" "?Inv t" "?Inv t'" "?rd t' = ?rd t" "?slot c t' = ?slot c t" for c t t'
  proof -
    obtain a1 a2 a3 where c: "c = (a1, a2, a3)" by (cases c) auto
    show ?thesis using own[of a1 a2 a3 t] own[of a1 a2 a3 t'] that unfolding c by simp
  qed
  have res: "?Inv (fold ?body ?cs s) \<and> ?rd (fold ?body ?cs s) = ?rd s \<and>
        (\<forall>d\<in>?D. ?slot d (fold ?body ?cs s) =
           (if d \<in> ?D then ?slot d (?body d s) else ?slot d s))"
    by (rule fold_own_slot[where D = ?D and Inv = ?Inv and rd = ?rd and slot = ?slot and body = ?body,
          OF frame loc distinct_cells]) (auto simp: wf)
  have m: "(i, j, k) \<in> ?D" using ing by (simp add: set_cells in_grid_def)
  from res m have "?slot (i, j, k) (phase0 s) = ?slot (i, j, k) (reset_acc i j k s)"
    unfolding phase0_def for3_cells by fastforce
  then show ?thesis using own[OF m, of s] wf by simp
qed

lemma force_cell_own:
  assumes "wf_grid t" "in_grid t i j k"
  shows "acc_at (force_cell rest p sp i j k t) i j k = force_acc t rest i j k"
    and "colour_of (vertices (force_cell rest p sp i j k t) ! vid t i j k) =
          (if p then gradient (fclamp (fdiv (fsub (pressure_of rest (get3 (div_f t) i j k)) (fneg rest))
                                            (fmul rest (Fin 2))) (Fin 0) (Fin 1))
           else if \<not> sp then (Fin 0, Fin 0, Fin 1)
           else colour_of (vertices t ! vid t i j k))"
proof -
  have lt: "vid t i j k < length (vertices t)"
    using assms vid_less[of t i j k] by (simp add: wf_grid_def)
  have sh: "shape3 (nx t) (ny t) (nz t) (ax t)" "shape3 (nx t) (ny t) (nz t) (ay t)"
    "shape3 (nx t) (ny t) (nz t) (az t)" using assms by (auto simp: wf_grid_def)
  have rg: "int i < nx t" "int j < ny t" "int k < nz t" using assms by (auto simp: in_grid_def)
  show "acc_at (force_cell rest p sp i j k t) i j k = force_acc t rest i j k"
    by (simp add: force_cell_def force_acc_def Let_def acc_at_def get3_set3_same[OF sh(1) rg]
        get3_set3_same[OF sh(2) rg] get3_set3_same[OF sh(3) rg])
  show "colour_of (vertices (force_cell rest p sp i j k t) ! vid t i j k) =
          (if p then gradient (fclamp (fdiv (fsub (pressure_of rest (get3 (div_f t) i j k)) (fneg rest))
                                            (fmul rest (Fin 2))) (Fin 0) (Fin 1))
           else if \<not> sp then (Fin 0, Fin 0, Fin 1)
           else colour_of (vertices t ! vid t i j k))"
    using lt by (simp add: force_cell_def Let_def colour_of_def set_color_def gradient_def)
qed

lemma force_cell_other:
  assumes "wf_grid t" "in_grid t i j k" "in_grid t i' j' k'" "(i', j', k') \<noteq> (i, j, k)"
  shows "acc_at (force_cell rest p sp i j k t) i' j' k' = acc_at t i' j' k'"
    "vertices (force_cell rest p sp i j k t) ! vid t i' j' k' = vertices t ! vid t i' j' k'"
proof -
  have "vid t i j k \<noteq> vid t i' j' k'"
    using assms vid_inj[of t j k j' k' i i'] by (auto simp: wf_grid_def in_grid_def)
  then show "vertices (force_cell rest p sp i j k t) ! vid t i' j' k' = vertices t ! vid t i' j' k'"
    by (simp add: force_cell_def Let_def)
  show "acc_at (force_cell rest p sp i j k t) i' j' k' = acc_at t i' j' k'"
    using assms(4) by (simp add: force_cell_def Let_def acc_at_def get3_set3_other)
qed

lemma force_add_cong:
  assumes "pos (vertices t' ! vid t i j k) = pos (vertices t ! vid t i j k)"
    "pos (vertices t' ! vid t ii jj kk) = pos (vertices t ! vid t ii jj kk)"
    "ny t' = ny t" "nz t' = nz t" "div_f t' = div_f t" "vx t' = vx t" "vy t' = vy t" "vz t' = vz t"
  shows "force_add t' rest i j k ii jj kk acc = force_add t rest i j k ii jj kk acc"
proof -
  have v: "vid t' = vid t" using assms by (intro vid_cong) simp_all
  show ?thesis
    unfolding force_add_def Let_def v vel_at_def assms(5-8)
      force_terms_pos_cong[OF assms(1,2)] ..
qed

lemma force_acc_cong:
  assumes wf: "wf_grid t" and ing: "in_grid t i j k"
    and eq: "map pos (vertices t') = map pos (vertices t)"
      "nx t' = nx t" "ny t' = ny t" "nz t' = nz t" "div_f t' = div_f t"
      "vx t' = vx t" "vy t' = vy t" "vz t' = vz t" "acc_at t' i j k = acc_at t i j k"
  shows "force_acc t' rest i j k = force_acc t rest i j k"
proof -
  have v: "vid t' = vid t" using eq by (intro vid_cong) simp_all
  have p: "pos (vertices t' ! vid t a1 a2 a3) = pos (vertices t ! vid t a1 a2 a3)"
    if "in_grid t a1 a2 a3" for a1 a2 a3
    using vid_less[of t a1 a2 a3] wf that eq(1) by (intro pos_nth) (simp_all add: wf_grid_def)
  have f: "fold (\<lambda>(ii, jj, kk) acc. if ii = i \<and> jj = j \<and> kk = k then acc
                   else force_add t' rest i j k ii jj kk acc) (cells (nx t) (ny t) (nz t)) a
         = fold (\<lambda>(ii, jj, kk) acc. if ii = i \<and> jj = j \<and> kk = k then acc
                   else force_add t rest i j k ii jj kk acc) (cells (nx t) (ny t) (nz t)) a" for a
  proof (rule fold_cong[OF refl refl])
    fix c assume c: "c \<in> set (cells (nx t) (ny t) (nz t))"
    obtain ii jj kk where cc: "c = (ii, jj, kk)" by (cases c) auto
    have g: "in_grid t ii jj kk" using c unfolding cc by (simp add: set_cells in_grid_def)
    have "force_add t' rest i j k ii jj kk acc = force_add t rest i j k ii jj kk acc" for acc
      by (intro force_add_cong p[OF ing] p[OF g] eq)
    then show "(case c of (ii, jj, kk) \<Rightarrow> \<lambda>acc. if ii = i \<and> jj = j \<and> kk = k then acc
                   else force_add t' rest i j k ii jj kk acc) =
          (case c of (ii, jj, kk) \<Rightarrow> \<lambda>acc. if ii = i \<and> jj = j \<and> kk = k then acc
                   else force_add t rest i j k ii jj kk acc)"
      unfolding cc by (simp cong: if_cong)
  qed
  have px: "x (vertices t' ! vid t i j k) = x (vertices t ! vid t i j k)"
    "y (vertices t' ! vid t i j k) = y (vertices t ! vid t i j k)"
    "z (vertices t' ! vid t i j k) = z (vertices t ! vid t i j k)"
    using pos_fields[OF p[OF ing]] by simp_all
  show ?thesis
    unfolding force_acc_def Let_def for3_cells v eq(2-4) eq(9) f px ..
qed

lemma force_pass_result:
  assumes wf: "wf_grid s" and ing: "in_grid s i j k"
  shows "acc_at (force_pass rest p sp s) i j k = force_acc s rest i j k"
    and "colour_of (vertices (force_pass rest p sp s) ! vid s i j k) =
          colour_of (vertices (force_cell rest p sp i j k s) ! vid s i j k)"
proof -
  let ?cs = "cells (nx s) (ny s) (nz s)"
  let ?D = "set ?cs"
  let ?Inv = "\<lambda>t. wf_grid t \<and> nx t = nx s \<and> ny t = ny s \<and> nz t = nz s"
  let ?body = "\<lambda>(i, j, k). force_cell rest p sp i j k"
  let ?slot = "\<lambda>(i, j, k) t. (acc_at t i j k, vertices t ! vid s i j k)"
  let ?rd = "\<lambda>t. (map pos (vertices t), div_f t, vx t, vy t, vz t)"
  have vid_eq: "vid t = vid s" if "?Inv t" for t
    using that by (intro ext) (simp add: vid_def)
  have ingr: "in_grid t a1 a2 a3 \<longleftrightarrow> (a1, a2, a3) \<in> ?D" if "?Inv t" for t a1 a2 a3
    using that by (simp add: in_grid_def set_cells)
  have frame: "?Inv (?body c t) \<and> ?rd (?body c t) = ?rd t \<and>
        (\<forall>d\<in>?D. d \<noteq> c \<longrightarrow> ?slot d (?body c t) = ?slot d t)" if "c \<in> ?D" "?Inv t" for c t
  proof -
    obtain a1 a2 a3 where c: "c = (a1, a2, a3)" by (cases c) auto
    have "?slot d (force_cell rest p sp a1 a2 a3 t) = ?slot d t" if "d \<noteq> c" "d \<in> ?D" for d
    proof -
      obtain i' j' k' where d: "d = (i', j', k')" by (cases d) auto
      show ?thesis
        using force_cell_other[of t a1 a2 a3 i' j' k' rest p sp] that \<open>c \<in> ?D\<close> \<open>?Inv t\<close>
          ingr[OF \<open>?Inv t\<close>] vid_eq[OF \<open>?Inv t\<close>]
        unfolding c d by simp
    qed
    then show ?thesis using that(2) unfolding c
      by (simp add: force_cell_frame)
  qed
  have loc: "?slot c (?body c t') = ?slot c (?body c t)"
    if "c \<in> ?D" "?Inv t" "?Inv t'" "?rd t' = ?rd t" "?slot c t' = ?slot c t" for c t t'
  proof -
    obtain a1 a2 a3 where c: "c = (a1, a2, a3)" by (cases c) auto
    have g: "in_grid t a1 a2 a3" "in_grid t' a1 a2 a3"
      using that(1) ingr[OF that(2)] ingr[OF that(3)] unfolding c by simp_all
    have w: "wf_grid t" "wf_grid t'" using that(2,3) by simp_all
    have e: "map pos (vertices t') = map pos (vertices t)" "div_f t' = div_f t"
      "vx t' = vx t" "vy t' = vy t" "vz t' = vz t" using that(4) by simp_all
    have o: "acc_at t' a1 a2 a3 = acc_at t a1 a2 a3"
      "vertices t' ! vid s a1 a2 a3 = vertices t ! vid s a1 a2 a3"
      using that(5) unfolding c by simp_all
    have a: "acc_at (force_cell rest p sp a1 a2 a3 t') a1 a2 a3 = acc_at (force_cell rest p sp a1 a2 a3 t) a1 a2 a3"
      unfolding force_cell_own(1)[OF w(1) g(1)] force_cell_own(1)[OF w(2) g(2)]
      using that(2,3) by (intro force_acc_cong[OF w(1) g(1)] e o) simp_all
    have lt: "vid s a1 a2 a3 < length (vertices t)" "vid s a1 a2 a3 < length (vertices t')"
      using vid_less[of t a1 a2 a3] vid_less[of t' a1 a2 a3] w g vid_eq[OF that(2)] vid_eq[OF that(3)]
      by (simp_all add: wf_grid_def)
    have "vertices (force_cell rest p sp a1 a2 a3 t') ! vid s a1 a2 a3 =
          vertices (force_cell rest p sp a1 a2 a3 t) ! vid s a1 a2 a3"
      using lt o(2) e(2) vid_eq[OF that(2)] vid_eq[OF that(3)]
      by (simp add: force_cell_def Let_def)
    then show ?thesis using a unfolding c by simp
  qed
  have res: "?Inv (fold ?body ?cs s) \<and> ?rd (fold ?body ?cs s) = ?rd s \<and>
        (\<forall>d\<in>?D. ?slot d (fold ?body ?cs s) =
           (if d \<in> ?D then ?slot d (?body d s) else ?slot d s))"
    by (rule fold_own_slot[where D = ?D and Inv = ?Inv and rd = ?rd and slot = ?slot and body = ?body,
          OF frame loc distinct_cells]) (auto simp: wf)
  have m: "(i, j, k) \<in> ?D" using ing by (simp add: set_cells in_grid_def)
  from res m have r: "?slot (i, j, k) (force_pass rest p sp s) = ?slot (i, j, k) (force_cell rest p sp i j k s)"
    unfolding force_pass_def for3_cells by fastforce
  then show "acc_at (force_pass rest p sp s) i j k = force_acc s rest i j k"
    using force_cell_own(1)[OF wf ing] by simp
  from r show "colour_of (vertices (force_pass rest p sp s) ! vid s i j k) =
          colour_of (vertices (force_cell rest p sp i j k s) ! vid s i j k)" by simp
qed

lemma restDensity_value:
  "restDensity grid = fdiv (Fin ((20 - 0) * (60 - 0) * (20 - 0)))
                        (float_of_int (nx grid * ny grid * nz grid))"
  by (simp add: restDensity_def minX_def maxX_def minY_def maxY_def minZ_def maxZ_def fsub_def)

lemma after_density:
  assumes wf: "wf_grid grid"
  defines "s2 \<equiv> density_pass (phase0 grid)"
  shows "wf_grid s2" "nx s2 = nx grid" "ny s2 = ny grid" "nz s2 = nz grid"
    "vertices s2 = vertices grid" "vx s2 = vx grid" "vy s2 = vy grid" "vz s2 = vz grid"
    "vid s2 = vid grid" "in_grid s2 = in_grid grid"
    "\<And>i j k. in_grid grid i j k \<Longrightarrow> acc_at s2 i j k = (Fin 0, gravity, Fin 0)"
    "\<And>i j k. in_grid grid i j k \<Longrightarrow> get3 (div_f s2) i j k = spec_density grid i j k"
    "\<And>i j k. in_grid grid i j k \<Longrightarrow>
        pressure_of (restDensity grid) (get3 (div_f s2) i j k) = spec_pressure grid i j k"
proof -
  note f0 = phase0_frame[OF wf]
  then have w1: "wf_grid (phase0 grid)" by simp
  note f1 = density_pass_frame[OF w1]
  show a: "wf_grid s2" "nx s2 = nx grid" "ny s2 = ny grid" "nz s2 = nz grid"
    "vertices s2 = vertices grid" "vx s2 = vx grid" "vy s2 = vy grid" "vz s2 = vz grid"
    using f0 f1 unfolding s2_def by simp_all
  show "vid s2 = vid grid" using a by (intro vid_cong) simp_all
  show "in_grid s2 = in_grid grid" using a by (intro in_grid_cong) simp_all
  have v0: "vid (phase0 grid) = vid grid" using f0 by (intro vid_cong) simp_all
  have g0: "in_grid (phase0 grid) = in_grid grid" using f0 by (intro in_grid_cong) simp_all
  have e: "ax s2 = ax (phase0 grid)" "ay s2 = ay (phase0 grid)" "az s2 = az (phase0 grid)"
    using density_pass_result[OF w1] rd_div_eq[of "density_pass (phase0 grid)" "phase0 grid"]
    unfolding s2_def by simp_all
  show "acc_at s2 i j k = (Fin 0, gravity, Fin 0)" if "in_grid grid i j k" for i j k
    using phase0_acc[OF wf that] by (simp add: acc_at_def e)
  have sd: "spec_density (phase0 grid) i j k = spec_density grid i j k" for i j k
    using f0 by (simp add: spec_density_def v0)
  show d: "get3 (div_f s2) i j k = spec_density grid i j k" if "in_grid grid i j k" for i j k
    using density_pass_result[OF w1] that g0 unfolding s2_def by (simp add: density_of_spec sd)
  show "pressure_of (restDensity grid) (get3 (div_f s2) i j k) = spec_pressure grid i j k"
    if "in_grid grid i j k" for i j k
    unfolding d[OF that] pressure_of_def spec_pressure_def restDensity_value ..
qed

lemma force_acc_spec:
  assumes wf: "wf_grid grid" and ing: "in_grid grid i j k"
  shows "force_acc (density_pass (phase0 grid)) (restDensity grid) i j k = spec_accel grid i j k"
proof -
  let ?s = "density_pass (phase0 grid)"
  note a = after_density[OF wf]
  have vel: "vel_at ?s = vel_at grid" by (intro ext) (simp add: vel_at_def a)
  have f: "fold (\<lambda>(ii, jj, kk) acc. if ii = i \<and> jj = j \<and> kk = k then acc
                   else force_add ?s (restDensity grid) i j k ii jj kk acc)
             (cells (nx grid) (ny grid) (nz grid)) a0
         = fold (\<lambda>cb acc. if cb = (i, j, k) then acc else spec_neighbour grid (i, j, k) cb acc)
             (cells (nx grid) (ny grid) (nz grid)) a0" for a0
  proof (rule fold_cong[OF refl refl])
    fix c assume c: "c \<in> set (cells (nx grid) (ny grid) (nz grid))"
    obtain ii jj kk where cc: "c = (ii, jj, kk)" by (cases c) auto
    have g: "in_grid grid ii jj kk" using c unfolding cc by (simp add: set_cells in_grid_def)
    have "force_add ?s (restDensity grid) i j k ii jj kk acc = spec_neighbour grid (i, j, k) (ii, jj, kk) acc"
      for acc
      unfolding force_add_def spec_neighbour_def Let_def prod.case a(5) a(9) vel a(13)[OF ing] a(13)[OF g] ..
    then show "(case c of (ii, jj, kk) \<Rightarrow> \<lambda>acc. if ii = i \<and> jj = j \<and> kk = k then acc
                   else force_add ?s (restDensity grid) i j k ii jj kk acc) =
          (\<lambda>acc. if c = (i, j, k) then acc else spec_neighbour grid (i, j, k) c acc)"
      unfolding cc by (simp cong: if_cong)
  qed
  show ?thesis
    unfolding force_acc_def spec_accel_def Let_def for3_cells a(2-5) a(9) a(11)[OF ing] f ..
qed

lemma integrate_particle_colour:
  "colour_of (fst (integrate_particle dt False v vel acc)) = colour_of v"
  by (cases vel; cases acc) (simp add: integrate_particle_def Let_def colour_of_def)

lemma UpdateGrid_acc:
  assumes wf: "wf_grid grid" and ing: "in_grid grid i j k"
  shows "acc_at (force_pass (restDensity grid) p sp (density_pass (phase0 grid))) i j k
           = spec_accel grid i j k"
    and "acc_at (UpdateGrid dt grid p sp) i j k = spec_accel grid i j k"
proof -
  let ?s2 = "density_pass (phase0 grid)"
  let ?s3 = "force_pass (restDensity grid) p sp ?s2"
  note a = after_density[OF wf]
  have g2: "in_grid ?s2 i j k" using ing a(10) by simp
  show f: "acc_at ?s3 i j k = spec_accel grid i j k"
    using force_pass_result(1)[OF a(1) g2] force_acc_spec[OF wf ing] by simp
  have "wf_grid ?s3" using before_integration(1)[OF wf] .
  from integrate_pass_result[OF this, of dt sp]
  have "acc_at (integrate_pass dt sp ?s3) i j k = acc_at ?s3 i j k"
    by (simp add: acc_at_def)
  then show "acc_at (UpdateGrid dt grid p sp) i j k = spec_accel grid i j k"
    using f by (simp add: UpdateGrid_def)
qed

lemma pressure_colour:
  assumes wf: "wf_grid grid" and ing: "in_grid grid i j k"
  shows "colour_of (vertices (force_pass (restDensity grid) True sp (density_pass (phase0 grid))) ! vid grid i j k)
           = gradient (fclamp (fdiv (fsub (spec_pressure grid i j k) (fneg (restDensity grid)))
                                    (fmul (restDensity grid) (Fin 2))) (Fin 0) (Fin 1))"
    and "colour_of (vertices (UpdateGrid dt grid True False) ! vid grid i j k)
           = gradient (fclamp (fdiv (fsub (spec_pressure grid i j k) (fneg (restDensity grid)))
                                    (fmul (restDensity grid) (Fin 2))) (Fin 0) (Fin 1))"
proof -
  let ?s2 = "density_pass (phase0 grid)"
  note a = after_density[OF wf]
  have g2: "in_grid ?s2 i j k" using ing a(10) by simp
  show c: "colour_of (vertices (force_pass (restDensity grid) True sp ?s2) ! vid grid i j k)
           = gradient (fclamp (fdiv (fsub (spec_pressure grid i j k) (fneg (restDensity grid)))
                                    (fmul (restDensity grid) (Fin 2))) (Fin 0) (Fin 1))" for sp
    using force_pass_result(2)[OF a(1) g2, of "restDensity grid" True sp]
      force_cell_own(2)[OF a(1) g2, of "restDensity grid" True sp]
    by (simp add: a(9) a(13)[OF ing])
  have "vertices (UpdateGrid dt grid True False) ! vid grid i j k =
        fst (integrate_particle dt False
               (vertices (force_pass (restDensity grid) True False ?s2) ! vid grid i j k)
               (vel_at grid i j k)
               (acc_at (force_pass (restDensity grid) True False ?s2) i j k))"
    using UpdateGrid_particle(1)[OF wf ing, of dt True False] by (metis fst_conv)
  then show "colour_of (vertices (UpdateGrid dt grid True False) ! vid grid i j k)
           = gradient (fclamp (fdiv (fsub (spec_pressure grid i j k) (fneg (restDensity grid)))
                                    (fmul (restDensity grid) (Fin 2))) (Fin 0) (Fin 1))"
    using c[of False] by (simp add: integrate_particle_colour)
qed


section \<open>Evaluation on the concrete grids\<close>

lemmas step_defs = UpdateGrid_def phase0_def density_pass_def force_pass_def integrate_pass_def
  reset_acc_def density_cell_def force_cell_def integrate_cell_def Let_def
  set3_def get3_def vid_def idx3_def integrate_particle_def vel_at_def acc_at_def
  bounce_def fgt_def density_of_def restDensity_def wall_axis_def pressure_of_def

lemmas const_defs = gravity_def nu_def radius_def h_def stiffness_def wallStiffness_def
  wallDamping_def epsilon_def minX_def maxX_def minY_def maxY_def minZ_def maxZ_def
  fsub_def float_of_int_def

lemma wf_lone: "wf_grid lone_grid" "in_grid lone_grid 0 0 0" "vid lone_grid 0 0 0 = 0"
  by (simp_all add: lone_grid_def wf_grid_def shape3_def in_grid_def vid_def idx3_def)

lemma wf_nan: "wf_grid nan_grid" "in_grid nan_grid 0 0 0" "vid nan_grid 0 0 0 = 0"
  by (simp_all add: nan_grid_def lone_grid_def wf_grid_def shape3_def in_grid_def vid_def idx3_def)

lemma wf_inf: "wf_grid inf_grid" "in_grid inf_grid 0 0 0" "vid inf_grid 0 0 0 = 0"
  by (simp_all add: inf_grid_def lone_grid_def wf_grid_def shape3_def in_grid_def vid_def idx3_def)

lemma wf_pair: "wf_grid pair_grid" "in_grid pair_grid 0 0 0" "in_grid pair_grid 0 0 1"
  "vid pair_grid 0 0 0 = 0" "vid pair_grid 0 0 1 = 1"
  by (simp_all add: pair_grid_def wf_grid_def shape3_def in_grid_def vid_def idx3_def)

lemma wf_far: "wf_grid far_grid" "in_grid far_grid 0 0 0" "in_grid far_grid 0 0 1"
  "vid far_grid 0 0 0 = 0" "vid far_grid 0 0 1 = 1"
  by (simp_all add: far_grid_def pair_grid_def wf_grid_def shape3_def in_grid_def vid_def idx3_def)

lemma pair_vertices:
  "vertices pair_grid ! vid pair_grid 0 0 0 = \<lparr> x = Fin 0, y = Fin 5, z = Fin 0, r = Fin 0, g = Fin 0, b = Fin 0 \<rparr>"
  "vertices pair_grid ! vid pair_grid 0 0 1 = \<lparr> x = Fin 0, y = Fin 5, z = Fin 1, r = Fin 0, g = Fin 0, b = Fin 0 \<rparr>"
  "vertices pair_grid ! vid pair_grid 0 0 (Suc 0) = \<lparr> x = Fin 0, y = Fin 5, z = Fin 1, r = Fin 0, g = Fin 0, b = Fin 0 \<rparr>"
  by (simp_all add: pair_grid_def vid_def idx3_def)

lemma far_vertices:
  "vertices far_grid ! vid far_grid 0 0 0 = \<lparr> x = Fin 0, y = Fin 5, z = Fin 0, r = Fin 0, g = Fin 0, b = Fin 0 \<rparr>"
  "vertices far_grid ! vid far_grid 0 0 1 = \<lparr> x = Fin 0, y = Fin 5, z = Fin 2, r = Fin 0, g = Fin 0, b = Fin 0 \<rparr>"
  "vertices far_grid ! vid far_grid 0 0 (Suc 0) = \<lparr> x = Fin 0, y = Fin 5, z = Fin 2, r = Fin 0, g = Fin 0, b = Fin 0 \<rparr>"
  by (simp_all add: far_grid_def pair_grid_def vid_def idx3_def)

lemma acc_lone:
  "acc_at (force_pass (restDensity lone_grid) p sp (density_pass (phase0 lone_grid))) 0 0 0
     = (Fin 0, Fin (- 981 / 100), Fin 0)"
  by (cases p; cases sp)
     (simp_all add: lone_grid_def step_defs for3_1 const_defs)

lemma cells_pair: "cells (nx pair_grid) (ny pair_grid) (nz pair_grid) = [(0, 0, 0), (0, 0, 1)]"
  using cells_112 by (simp add: pair_grid_def)

lemma pair_density:
  "spec_density pair_grid 0 0 0 = Fin (1 / 36)" "spec_density pair_grid 0 0 1 = Fin (1 / 36)"
  unfolding spec_density_def cells_pair
  by (simp_all add: pair_vertices spec_near_def spec_kernel_def spec_sq_dist_def const_defs)

lemma pair_pressure:
  "spec_pressure pair_grid 0 0 0 = Fin (1 / 60 - 7200)"
  "spec_pressure pair_grid 0 0 1 = Fin (1 / 60 - 7200)"
  unfolding spec_pressure_def pair_density
  by (simp_all add: pair_grid_def const_defs)

lemma pair_accel: "spec_accel pair_grid 0 0 0 = (Fin 2, Fin (- 981 / 100), Fin (1202 - 1 / 360))"
proof -
  have d: "dist_to (vertices pair_grid ! vid pair_grid 0 0 0) (vertices pair_grid ! vid pair_grid 0 0 1) = Fin 1"
    unfolding pair_vertices by (simp add: dist_to_def const_defs)
  have v: "vel_at pair_grid 0 0 0 = (Fin 0, Fin 0, Fin 0)" "vel_at pair_grid 0 0 1 = (Fin 0, Fin 0, Fin 0)"
    by (simp_all add: vel_at_def get3_def pair_grid_def)
  have n: "spec_neighbour pair_grid (0, 0, 0) (0, 0, 1) (Fin 0, gravity, Fin 0)
           = (Fin 0, Fin (- 981 / 100), Fin (1200 - 1 / 360))"
    unfolding spec_neighbour_def prod.case Let_def d pair_pressure v
    by (simp add: press_term_def visc_term_def d[unfolded pair_vertices] Let_def vadd_def
        pair_vertices const_defs fgt_def)
  have f: "fold (\<lambda>cb acc. if cb = (0, 0, 0) then acc else spec_neighbour pair_grid (0, 0, 0) cb acc)
             [(0, 0, 0), (0, 0, 1)] (Fin 0, gravity, Fin 0)
           = spec_neighbour pair_grid (0, 0, 0) (0, 0, 1) (Fin 0, gravity, Fin 0)"
    by simp
  show ?thesis
    unfolding spec_accel_def cells_pair Let_def f n
    by (simp add: pair_vertices wall_axis_def const_defs fgt_def)
qed


section \<open>The claims\<close>

subsection \<open>C1: hard containment\<close>

text \<open>
  Claim C1, as amended. After the last call of any non-empty sequence of calls of
  \<open>UpdateGrid\<close> on a well-formed grid, whatever the arguments of the calls and the values in
  the grid, every coordinate of every particle is either a NaN or lies in
  \<open>[min + epsilon, max - epsilon]\<close> for its axis, with \<open>min = (0, 0, 0)\<close>, \<open>max = (20, 60, 20)\<close>
  and \<open>epsilon = 1e-4\<close>. (The two tests of the hard boundary are both false for a NaN, which
  is therefore stored as it is.)
\<close>

theorem positions_contained_or_nan:
  assumes "wf_grid grid" and "in_grid grid i j k" and "calls \<noteq> []"
  shows "(x (vertices (run_steps calls grid) ! vid grid i j k) = NaN \<or>
          within_bounds minX maxX (x (vertices (run_steps calls grid) ! vid grid i j k))) \<and>
         (y (vertices (run_steps calls grid) ! vid grid i j k) = NaN \<or>
          within_bounds minY maxY (y (vertices (run_steps calls grid) ! vid grid i j k))) \<and>
         (z (vertices (run_steps calls grid) ! vid grid i j k) = NaN \<or>
          within_bounds minZ maxZ (z (vertices (run_steps calls grid) ! vid grid i j k)))"
proof -
  from assms(3) obtain cs c where calls: "calls = cs @ [c]"
    by (metis rev_exhaust)
  obtain dt p sp where c: "c = (dt, p, sp)" by (cases c) auto
  let ?t = "run_steps cs grid"
  have run: "run_steps calls grid = UpdateGrid dt ?t p sp"
    by (simp add: run_steps_def calls c)
  note f = run_steps_frame[OF assms(1), of cs]
  have v: "vid ?t = vid grid" using f by (intro vid_cong) simp_all
  have g: "in_grid ?t i j k" using f assms(2) by (simp add: in_grid_def)
  show ?thesis
    using step_contained[of ?t i j k dt p sp] f g unfolding run v by simp
qed

text \<open>
  Claim C1 as stated (every position lies within the bounds, for any initial condition) fails on
  the grid of one particle whose x coordinate is a NaN: after one step the coordinate is still
  a NaN, which is not within the bounds.
\<close>

theorem positions_contained_or_nan_counterexample:
  "wf_grid nan_grid \<and> in_grid nan_grid 0 0 0 \<and>
   \<not> within_bounds minX maxX
       (x (vertices (run_steps [(Fin (1 / 100), False, False)] nan_grid) ! vid nan_grid 0 0 0))"
proof -
  have "x (vertices (run_steps [(Fin (1 / 100), False, False)] nan_grid) ! 0) = NaN"
    by (simp add: run_steps_def nan_grid_def lone_grid_def step_defs for3_1)
  then show ?thesis
    by (simp add: wf_nan within_bounds_def)
qed

text \<open>
  An instance of C1: one step of 0.01 on the grid of one particle at \<open>(1, 1, 1)\<close>; the y coordinate
  is not a NaN and hence within its bounds.
\<close>

theorem positions_contained_or_nan_witness:
  "wf_grid lone_grid \<and> in_grid lone_grid 0 0 0 \<and> [(Fin (1 / 100), False, False)] \<noteq> [] \<and>
   within_bounds minY maxY
     (y (vertices (run_steps [(Fin (1 / 100), False, False)] lone_grid) ! vid lone_grid 0 0 0))"
proof -
  have n: "y (vertices (run_steps [(Fin (1 / 100), False, False)] lone_grid) ! vid lone_grid 0 0 0) \<noteq> NaN"
    by (simp add: run_steps_def lone_grid_def step_defs for3_1 const_defs)
  show ?thesis
    using positions_contained_or_nan[of lone_grid 0 0 0 "[(Fin (1 / 100), False, False)]"] n by (simp add: wf_lone)
qed

subsection \<open>C2: the density phase\<close>

text \<open>
  Claim C2. On a well-formed grid, the density phase gives every particle \<open>A\<close> the sum, over
  the other particles \<open>B\<close> with \<open>0 < r\<^sup>2 < h\<^sup>2\<close>, of \<open>(1 - r / h)\<^sup>2\<close>, added in lattice order; the
  particle itself and the particles with \<open>r\<^sup>2 \<ge> h\<^sup>2\<close> add nothing. The phase changes no field but
  the density, each iteration changes the density slot of its own particle only, and the
  result depends on the grid only through its dimensions and the positions of the particles.
\<close>

theorem density_pass_computes_spec_density:
  assumes "wf_grid grid" and "in_grid grid i j k"
  shows "get3 (div_f (density_pass grid)) i j k = spec_density grid i j k \<and>
         (density_pass grid)\<lparr>div_f := div_f grid\<rparr> = grid \<and>
         (\<forall>t i' j' k'. (i', j', k') \<noteq> (i, j, k) \<longrightarrow>
            get3 (div_f (density_cell i j k t)) i' j' k' = get3 (div_f t) i' j' k') \<and>
         (\<forall>grid'. wf_grid grid' \<and> nx grid' = nx grid \<and> ny grid' = ny grid \<and> nz grid' = nz grid \<and>
              map pos (vertices grid') = map pos (vertices grid) \<longrightarrow>
            get3 (div_f (density_pass grid')) i j k = get3 (div_f (density_pass grid)) i j k)"
proof -
  note r = density_pass_result[OF assms(1)]
  have a: "get3 (div_f (density_pass grid)) i j k = spec_density grid i j k"
    using r assms(2) by (simp add: density_of_spec)
  have "(density_pass grid)\<lparr>div_f := []\<rparr> = grid\<lparr>div_f := []\<rparr>" using r by simp
  then have "(density_pass grid)\<lparr>div_f := [], div_f := div_f grid\<rparr> = grid\<lparr>div_f := [], div_f := div_f grid\<rparr>"
    by simp
  then have b: "(density_pass grid)\<lparr>div_f := div_f grid\<rparr> = grid" by simp
  have c: "get3 (div_f (density_pass grid')) i j k = get3 (div_f (density_pass grid)) i j k"
    if "wf_grid grid' \<and> nx grid' = nx grid \<and> ny grid' = ny grid \<and> nz grid' = nz grid \<and>
              map pos (vertices grid') = map pos (vertices grid)" for grid'
  proof -
    have "in_grid grid' i j k" using that assms(2) by (simp add: in_grid_def)
    then have "get3 (div_f (density_pass grid')) i j k = spec_density grid' i j k"
      using density_pass_result[of grid'] that by (simp add: density_of_spec)
    then show ?thesis
      using a spec_density_cong[OF assms, of grid'] that by simp
  qed
  have e: "\<forall>t i' j' k'. (i', j', k') \<noteq> (i, j, k) \<longrightarrow>
            get3 (div_f (density_cell i j k t)) i' j' k' = get3 (div_f t) i' j' k'"
    by (simp add: density_cell_def get3_set3_other)
  show ?thesis using a b c e by blast
qed

text \<open>
  An instance of C2: of two particles at distance 1, the first gets the density
  \<open>(1 - 1 / 1.2)\<^sup>2 = 1 / 36\<close>.
\<close>

theorem density_pass_computes_spec_density_witness:
  "wf_grid pair_grid \<and> in_grid pair_grid 0 0 0 \<and>
   get3 (div_f (density_pass pair_grid)) 0 0 0 = Fin (1 / 36)"
proof -
  have "spec_density pair_grid 0 0 0 = Fin (1 / 36)"
  proof -
    have c: "cells (nx pair_grid) (ny pair_grid) (nz pair_grid) = [(0, 0, 0), (0, 0, 1)]"
      using cells_112 by (simp add: pair_grid_def)
    show ?thesis
      unfolding spec_density_def c
      by (simp add: pair_vertices spec_near_def spec_kernel_def spec_sq_dist_def const_defs)
  qed
  then show ?thesis
    using density_pass_computes_spec_density[of pair_grid 0 0 0] by (simp add: wf_pair)
qed

subsection \<open>C3: the pressure terms of a pair\<close>

text \<open>
  Claim C3. Let \<open>A\<close> and \<open>B\<close> be two distinct particles of a well-formed grid at a distance
  \<open>0 < r \<le> h\<close>. In the force phase of a step, on the densities that the density phase of this
  step has stored, the pressure term added to the acceleration of \<open>A\<close> for the neighbour \<open>B\<close> and
  the pressure term added to the acceleration of \<open>B\<close> for the neighbour \<open>A\<close> add up to zero in
  every component. Both terms are the ones that the neighbour loop adds, before the viscosity
  term.
\<close>

theorem pressure_terms_cancel:
  assumes "wf_grid grid" and "in_grid grid i j k" and "in_grid grid ii jj kk"
    and "(ii, jj, kk) \<noteq> (i, j, k)"
    and "flt (Fin 0) (dist_to (vertices grid ! vid grid i j k) (vertices grid ! vid grid ii jj kk))"
    and "fle (dist_to (vertices grid ! vid grid i j k) (vertices grid ! vid grid ii jj kk)) h"
  shows "let s = density_pass (phase0 grid);
             A = vertices s ! vid s i j k;
             B = vertices s ! vid s ii jj kk;
             PA = pressure_of (restDensity grid) (get3 (div_f s) i j k);
             PB = pressure_of (restDensity grid) (get3 (div_f s) ii jj kk)
         in vadd (press_term A PA B PB) (press_term B PB A PA) = (Fin 0, Fin 0, Fin 0) \<and>
            (\<forall>acc. force_add s (restDensity grid) i j k ii jj kk acc =
               vadd (vadd acc (press_term A PA B PB))
                    (visc_term A (vel_at s i j k) B (vel_at s ii jj kk))) \<and>
            (\<forall>acc. force_add s (restDensity grid) ii jj kk i j k acc =
               vadd (vadd acc (press_term B PB A PA))
                    (visc_term B (vel_at s ii jj kk) A (vel_at s i j k)))"
proof -
  let ?t = "phase0 grid"
  let ?s = "density_pass ?t"
  let ?A = "vertices grid ! vid grid i j k" and ?B = "vertices grid ! vid grid ii jj kk"
  note f = phase0_frame[OF assms(1)]
  then have w0: "wf_grid ?t" by simp
  note f1 = density_pass_frame[OF w0]
  have v: "vid ?s = vid grid" by (intro vid_cong) (simp_all add: f f1)
  have vs: "vertices ?s = vertices grid" using f f1 by simp
  have g: "in_grid ?t = in_grid grid" using f by (intro in_grid_cong) simp_all
  have dA: "is_finite (get3 (div_f ?s) i j k)" and dB: "is_finite (get3 (div_f ?s) ii jj kk)"
    using density_pass_result[OF w0] assms(2,3) g by (simp_all add: density_of_spec spec_density_finite)
  have "nx grid \<noteq> 0 \<and> ny grid \<noteq> 0 \<and> nz grid \<noteq> 0"
    using assms(2) by (auto simp: in_grid_def)
  then have rd: "is_finite (restDensity grid)"
    by (simp add: restDensity_def float_of_int_def minX_def maxX_def minY_def maxY_def minZ_def
        maxZ_def fsub_def)
  have PA: "is_finite (pressure_of (restDensity grid) (get3 (div_f ?s) i j k))"
    using rd dA by (cases "restDensity grid"; cases "get3 (div_f ?s) i j k")
      (simp_all add: pressure_of_def stiffness_def fsub_def)
  have PB: "is_finite (pressure_of (restDensity grid) (get3 (div_f ?s) ii jj kk))"
    using rd dB by (cases "restDensity grid"; cases "get3 (div_f ?s) ii jj kk")
      (simp_all add: pressure_of_def stiffness_def fsub_def)
  have "fle (dist_to ?A ?B) (Fin (12 / 10))" using assms(6) by (simp only: h_def)
  from flt_Fin_left[OF assms(5) this]
  obtain d where d: "dist_to ?A ?B = Fin d" "0 < d" "d \<le> 12 / 10" by blast
  from dist_to_Fin[OF d(1)] obtain a1 a2 a3 b1 b2 b3 where
    AB: "x ?A = Fin a1" "y ?A = Fin a2" "z ?A = Fin a3" "x ?B = Fin b1" "y ?B = Fin b2" "z ?B = Fin b3" and
    dd: "d = sqrt ((b1 - a1) * (b1 - a1) + (b2 - a2) * (b2 - a2) + (b3 - a3) * (b3 - a3))"
    by blast
  have nn: "0 \<le> (a1 - b1) * (a1 - b1) + (a2 - b2) * (a2 - b2) + (a3 - b3) * (a3 - b3)"
    by (intro add_nonneg_nonneg) simp_all
  have "sqrt ((a1 - b1) * (a1 - b1) + (a2 - b2) * (a2 - b2) + (a3 - b3) * (a3 - b3)) = d"
    unfolding dd by (rule arg_cong[where f = sqrt]) (simp add: algebra_simps)
  then have dBA: "dist_to ?B ?A = Fin d"
    using nn by (simp add: dist_to_def AB fsub_def not_less)
  have opp: "vadd (press_term ?A (pressure_of (restDensity grid) (get3 (div_f ?s) i j k))
                   ?B (pressure_of (restDensity grid) (get3 (div_f ?s) ii jj kk)))
                  (press_term ?B (pressure_of (restDensity grid) (get3 (div_f ?s) ii jj kk))
                   ?A (pressure_of (restDensity grid) (get3 (div_f ?s) i j k)))
             = (Fin 0, Fin 0, Fin 0)"
    by (rule press_term_opposite[OF d(1,2) PA PB])
  have noskip: "\<not> (fle (Fin d) (Fin 0) \<or> fgt (Fin d) h)"
    using d by (simp add: h_def fgt_def)
  show ?thesis
    unfolding Let_def v vs using opp noskip
    by (simp add: force_add_def Let_def v vs d(1) dBA)
qed

text \<open>An instance of C3: the two particles at distance 1.\<close>

theorem pressure_terms_cancel_witness:
  "wf_grid pair_grid \<and> in_grid pair_grid 0 0 0 \<and> in_grid pair_grid 0 0 1 \<and>
   (0, 0, 1) \<noteq> (0 :: nat, 0 :: nat, 0 :: nat) \<and>
   dist_to (vertices pair_grid ! vid pair_grid 0 0 0) (vertices pair_grid ! vid pair_grid 0 0 1) = Fin 1 \<and>
   (let s = density_pass (phase0 pair_grid);
        A = vertices s ! vid s 0 0 0;
        B = vertices s ! vid s 0 0 1;
        PA = pressure_of (restDensity pair_grid) (get3 (div_f s) 0 0 0);
        PB = pressure_of (restDensity pair_grid) (get3 (div_f s) 0 0 1)
    in vadd (press_term A PA B PB) (press_term B PB A PA) = (Fin 0, Fin 0, Fin 0))"
proof -
  have d: "dist_to (vertices pair_grid ! vid pair_grid 0 0 0) (vertices pair_grid ! vid pair_grid 0 0 1) = Fin 1"
    unfolding pair_vertices by (simp add: dist_to_def const_defs)
  have h1: "flt (Fin 0) (dist_to (vertices pair_grid ! vid pair_grid 0 0 0) (vertices pair_grid ! vid pair_grid 0 0 1))"
    and h2: "fle (dist_to (vertices pair_grid ! vid pair_grid 0 0 0) (vertices pair_grid ! vid pair_grid 0 0 1)) h"
    unfolding d by (simp_all add: h_def)
  have ne: "(0, 0, 1) \<noteq> (0 :: nat, 0 :: nat, 0 :: nat)" by simp
  from pressure_terms_cancel[OF wf_pair(1) wf_pair(2) wf_pair(3) ne h1 h2]
  show ?thesis using d wf_pair(1-3) by (simp add: Let_def)
qed

subsection \<open>C4: the positions of the lattice\<close>

text \<open>
  Claim C4. For positive resolutions \<open>nx\<close>, \<open>ny\<close>, \<open>nz\<close> and any spacing, \<open>CreateGrid\<close> returns a
  grid of exactly \<open>nx \<sqdot> ny \<sqdot> nz\<close> particle records, and the record of index
  \<open>i \<sqdot> (ny \<sqdot> nz) + j \<sqdot> nz + k\<close> has the position \<open>(i \<sqdot> scale, j \<sqdot> scale + 5, k \<sqdot> scale)\<close>.
\<close>

theorem CreateGrid_positions:
  assumes "0 < resolution_x" and "0 < resolution_y" and "0 < resolution_z"
  shows "\<exists>grid. CreateGrid resolution_x resolution_y resolution_z scale = Some grid \<and>
           int (length (vertices grid)) = resolution_x * resolution_y * resolution_z \<and>
           (\<forall>i j k. int i < resolution_x \<and> int j < resolution_y \<and> int k < resolution_z \<longrightarrow>
              pos (vertices grid ! nat (idx3 (int i) (int j) (int k) resolution_y resolution_z))
              = (fmul (float_of_int (int i)) scale,
                 fadd (fmul (float_of_int (int j)) scale) (float_of_int 5),
                 fmul (float_of_int (int k)) scale))"
proof -
  have nn: "0 \<le> resolution_x" "0 \<le> resolution_y" "0 \<le> resolution_z" using assms by simp_all
  from CreateGrid_fields[OF nn, of scale] obtain grid where
    g: "CreateGrid resolution_x resolution_y resolution_z scale = Some grid"
      "length (vertices grid) = nat (resolution_x * resolution_y * resolution_z)"
      "\<forall>i j k. int i < resolution_x \<and> int j < resolution_y \<and> int k < resolution_z \<longrightarrow>
          vertices grid ! nat (idx3 (int i) (int j) (int k) resolution_y resolution_z) = placed scale i j k"
    by blast
  have "0 \<le> resolution_x * resolution_y * resolution_z" using nn by simp
  then have "int (length (vertices grid)) = resolution_x * resolution_y * resolution_z"
    using g(2) by simp
  then show ?thesis using g(1,3) by (simp add: pos_def placed_def)
qed

text \<open>
  The instance of C4 named in the claim: \<open>CreateGrid(2, 2, 2, 1.0)\<close> has eight records and puts
  the particle of lattice coordinate \<open>(1, 1, 1)\<close>, of index 7, at \<open>(1, 6, 1)\<close>.
\<close>

theorem CreateGrid_positions_witness:
  "(0 :: int) < 2 \<and>
   (\<exists>grid. CreateGrid 2 2 2 (Fin 1) = Some grid \<and> length (vertices grid) = 8 \<and>
      pos (vertices grid ! 7) = (Fin 1, Fin 6, Fin 1))"
proof -
  from CreateGrid_positions[of 2 2 2 "Fin 1"] obtain grid where
    g: "CreateGrid 2 2 2 (Fin 1) = Some grid" "int (length (vertices grid)) = 2 * 2 * 2"
      "\<forall>i j k. int i < 2 \<and> int j < 2 \<and> int k < 2 \<longrightarrow>
          pos (vertices grid ! nat (idx3 (int i) (int j) (int k) 2 2))
              = (fmul (float_of_int (int i)) (Fin 1),
                 fadd (fmul (float_of_int (int j)) (Fin 1)) (float_of_int 5),
                 fmul (float_of_int (int k)) (Fin 1))"
    by auto
  from g(3) have "pos (vertices grid ! nat (idx3 (int 1) (int 1) (int 1) 2 2))
              = (fmul (float_of_int (int 1)) (Fin 1),
                 fadd (fmul (float_of_int (int 1)) (Fin 1)) (float_of_int 5),
                 fmul (float_of_int (int 1)) (Fin 1))"
    by (metis int_ops(2) one_less_numeral_iff semiring_norm(76))
  then have "pos (vertices grid ! 7) = (Fin 1, Fin 6, Fin 1)"
    by (simp add: idx3_def float_of_int_def)
  then show ?thesis using g(1,2) by auto
qed

subsection \<open>C5: an isolated particle\<close>

text \<open>
  Claim C5. If no other particle of a well-formed grid is strictly within the distance \<open>h\<close> of a
  particle (\<open>r\<^sup>2 < h\<^sup>2\<close> holds for none), the density phase of a step stores the density 0 for
  it, and the pressure that the force phase computes for it is
  \<open>stiffness \<sqdot> (0 - restDensity) = - stiffness \<sqdot> restDensity\<close>: this is the pressure from which the
  force phase accumulates the acceleration that it stores for the particle, and from which, in
  pressure mode, it derives the colour that it stores, which is the gradient at 0.2.
\<close>

theorem isolated_particle_pressure:
  assumes "wf_grid grid" and "in_grid grid i j k"
    and "\<forall>ii jj kk. in_grid grid ii jj kk \<and> (ii, jj, kk) \<noteq> (i, j, k) \<longrightarrow>
           \<not> flt (spec_sq_dist (vertices grid ! vid grid i j k) (vertices grid ! vid grid ii jj kk))
                  (fmul h h)"
  shows "get3 (div_f (density_pass (phase0 grid))) i j k = Fin 0 \<and>
         pressure_of (restDensity grid) (get3 (div_f (density_pass (phase0 grid))) i j k)
           = fmul stiffness (fsub (Fin 0) (restDensity grid)) \<and>
         pressure_of (restDensity grid) (get3 (div_f (density_pass (phase0 grid))) i j k)
           = fneg (fmul stiffness (restDensity grid)) \<and>
         spec_pressure grid i j k = fneg (fmul stiffness (restDensity grid)) \<and>
         acc_at (force_pass (restDensity grid) pressure' speed (density_pass (phase0 grid))) i j k
           = spec_accel grid i j k \<and>
         colour_of (vertices (force_pass (restDensity grid) True speed (density_pass (phase0 grid)))
                      ! vid grid i j k)
           = gradient (fclamp (fdiv (fsub (fneg (fmul stiffness (restDensity grid)))
                                          (fneg (restDensity grid)))
                                    (fmul (restDensity grid) (Fin 2))) (Fin 0) (Fin 1)) \<and>
         colour_of (vertices (force_pass (restDensity grid) True speed (density_pass (phase0 grid)))
                      ! vid grid i j k)
           = (Fin (2 / 10), Fin (16 / 100), Fin (8 / 10))"
proof -
  let ?s = "phase0 grid"
  let ?rd = "restDensity grid"
  note f = phase0_frame[OF assms(1)]
  note a = after_density[OF assms(1)]
  have v: "vid ?s = vid grid" using f by (intro vid_cong) simp_all
  have g: "in_grid ?s = in_grid grid" using f by (intro in_grid_cong) simp_all
  have "spec_density ?s i j k = Fin 0"
    using assms(3) f by (intro spec_density_isolated) (simp add: v g spec_near_def)
  then have d: "get3 (div_f (density_pass ?s)) i j k = Fin 0"
    using density_pass_result[of ?s] f assms(2) g by (simp add: density_of_spec)
  have n: "fmul stiffness (fsub (Fin 0) t) = fneg (fmul stiffness t)" for t
    by (cases t) (simp_all add: stiffness_def fsub_def inf_times_def)
  have p: "pressure_of ?rd (get3 (div_f (density_pass ?s)) i j k) = fneg (fmul stiffness ?rd)"
    using d n by (simp add: pressure_of_def)
  have sp: "spec_pressure grid i j k = fneg (fmul stiffness ?rd)"
    using a(13)[OF assms(2)] p by simp
  have acc: "acc_at (force_pass ?rd pressure' speed (density_pass ?s)) i j k = spec_accel grid i j k"
    by (rule UpdateGrid_acc(1)[OF assms(1,2)])
  have col: "colour_of (vertices (force_pass ?rd True speed (density_pass ?s)) ! vid grid i j k)
           = gradient (fclamp (fdiv (fsub (fneg (fmul stiffness ?rd)) (fneg ?rd))
                                    (fmul ?rd (Fin 2))) (Fin 0) (Fin 1))"
    using pressure_colour(1)[OF assms(1,2), of speed] unfolding sp .
  have pos3: "0 < nx grid" "0 < ny grid" "0 < nz grid"
    using assms(2) by (auto simp: in_grid_def)
  then have "0 < real_of_int (nx grid) * real_of_int (ny grid) * real_of_int (nz grid)"
    by (intro mult_pos_pos) simp_all
  then have "0 < 24000 / (real_of_int (nx grid) * real_of_int (ny grid) * real_of_int (nz grid))"
    by simp
  moreover have "?rd = Fin (24000 / (real_of_int (nx grid) * real_of_int (ny grid) * real_of_int (nz grid)))"
    using pos3 unfolding restDensity_value by (simp add: float_of_int_def)
  ultimately obtain t where t: "?rd = Fin t" "0 < t" by blast
  have "gradient (fclamp (fdiv (fsub (fneg (fmul stiffness ?rd)) (fneg ?rd))
                                    (fmul ?rd (Fin 2))) (Fin 0) (Fin 1))
        = (Fin (2 / 10), Fin (16 / 100), Fin (8 / 10))"
  proof -
    have "(- (3 / 5 * t) + t) / (t * 2) = 1 / 5" using t(2) by (simp add: field_simps)
    then show ?thesis
      unfolding t(1) using t(2)
      by (simp add: stiffness_def fsub_def fclamp_def gradient_def)
  qed
  then show ?thesis using d n p sp acc col by (simp add: pressure_of_def)
qed

text \<open>
  An instance of C5: of two particles at distance 2, the first has density 0, pressure
  \<open>- 0.6 \<sqdot> 12000 = - 7200\<close> and, after the force phase in pressure mode, the colour
  \<open>(0.2, 0.16, 0.8)\<close>.
\<close>

theorem isolated_particle_pressure_witness:
  "wf_grid far_grid \<and> in_grid far_grid 0 0 0 \<and>
   spec_sq_dist (vertices far_grid ! vid far_grid 0 0 0) (vertices far_grid ! vid far_grid 0 0 1) = Fin 4 \<and>
   get3 (div_f (density_pass (phase0 far_grid))) 0 0 0 = Fin 0 \<and>
   pressure_of (restDensity far_grid) (get3 (div_f (density_pass (phase0 far_grid))) 0 0 0) = Fin (- 7200) \<and>
   spec_pressure far_grid 0 0 0 = Fin (- 7200) \<and>
   colour_of (vertices (force_pass (restDensity far_grid) True False (density_pass (phase0 far_grid)))
                ! vid far_grid 0 0 0) = (Fin (2 / 10), Fin (16 / 100), Fin (8 / 10))"
proof -
  have d: "spec_sq_dist (vertices far_grid ! vid far_grid 0 0 0) (vertices far_grid ! vid far_grid 0 0 1) = Fin 4"
    unfolding far_vertices by (simp add: spec_sq_dist_def const_defs)
  have iso: "\<forall>ii jj kk. in_grid far_grid ii jj kk \<and> (ii, jj, kk) \<noteq> (0, 0, 0) \<longrightarrow>
           \<not> flt (spec_sq_dist (vertices far_grid ! vid far_grid 0 0 0) (vertices far_grid ! vid far_grid ii jj kk))
                  (fmul h h)"
  proof (intro allI impI)
    fix ii jj kk
    assume a: "in_grid far_grid ii jj kk \<and> (ii, jj, kk) \<noteq> (0, 0, 0)"
    then have "ii = 0 \<and> jj = 0 \<and> kk = 1"
      by (auto simp: in_grid_def far_grid_def pair_grid_def)
    then show "\<not> flt (spec_sq_dist (vertices far_grid ! vid far_grid 0 0 0) (vertices far_grid ! vid far_grid ii jj kk))
                  (fmul h h)"
      using d by (simp add: h_def)
  qed
  have rd: "restDensity far_grid = Fin 12000"
    by (simp add: restDensity_def far_grid_def pair_grid_def const_defs)
  from isolated_particle_pressure[OF wf_far(1) wf_far(2) iso, of True False]
  have c: "get3 (div_f (density_pass (phase0 far_grid))) 0 0 0 = Fin 0"
    "pressure_of (restDensity far_grid) (get3 (div_f (density_pass (phase0 far_grid))) 0 0 0)
       = fneg (fmul stiffness (restDensity far_grid))"
    "spec_pressure far_grid 0 0 0 = fneg (fmul stiffness (restDensity far_grid))"
    "colour_of (vertices (force_pass (restDensity far_grid) True False (density_pass (phase0 far_grid)))
                ! vid far_grid 0 0 0) = (Fin (2 / 10), Fin (16 / 100), Fin (8 / 10))"
    by blast+
  have "fneg (fmul stiffness (restDensity far_grid)) = Fin (- 7200)"
    unfolding rd by (simp add: stiffness_def)
  then show ?thesis using c d wf_far(1,2) by simp
qed

subsection \<open>C6: the rest density\<close>

text \<open>
  Claim C6. In a step on a well-formed grid, \<open>restDensity\<close> is
  \<open>(20 - 0) \<sqdot> (60 - 0) \<sqdot> (20 - 0) / (nx \<sqdot> ny \<sqdot> nz)\<close>, computed from the dimensions of the grid,
  and this one value is used for the pressure of every particle: the acceleration that the
  step stores for a particle is the one accumulated from the pressures
  \<open>stiffness \<sqdot> (density - restDensity)\<close> of the particle and of each of its neighbours with this
  value, and the colour stored in pressure mode is the gradient of the pressure of the particle
  normalised with this value. The step leaves the dimensions as they are, so that the next
  step computes the same value.
\<close>

theorem restDensity_per_step:
  assumes "wf_grid grid"
  shows "restDensity grid = fdiv (Fin ((20 - 0) * (60 - 0) * (20 - 0)))
                              (float_of_int (nx grid * ny grid * nz grid)) \<and>
         UpdateGrid dt grid pressure' speed =
           integrate_pass dt speed
             (for3 (nx grid) (ny grid) (nz grid) (force_cell (restDensity grid) pressure' speed)
                (density_pass (phase0 grid))) \<and>
         restDensity (UpdateGrid dt grid pressure' speed) = restDensity grid \<and>
         (\<forall>i j k. in_grid grid i j k \<longrightarrow>
            acc_at (UpdateGrid dt grid pressure' speed) i j k = spec_accel grid i j k \<and>
            colour_of (vertices (UpdateGrid dt grid True False) ! vid grid i j k)
              = gradient (fclamp
                  (fdiv (fsub (spec_pressure grid i j k)
                              (fneg (fdiv (Fin ((20 - 0) * (60 - 0) * (20 - 0)))
                                          (float_of_int (nx grid * ny grid * nz grid)))))
                        (fmul (fdiv (Fin ((20 - 0) * (60 - 0) * (20 - 0)))
                                    (float_of_int (nx grid * ny grid * nz grid)))
                              (Fin 2)))
                  (Fin 0) (Fin 1)))"
proof -
  note f0 = phase0_frame[OF assms]
  then have w: "wf_grid (phase0 grid)" by simp
  note f1 = density_pass_frame[OF w]
  have a: "restDensity grid = fdiv (Fin ((20 - 0) * (60 - 0) * (20 - 0)))
                              (float_of_int (nx grid * ny grid * nz grid))"
    by (rule restDensity_value)
  have b: "UpdateGrid dt grid pressure' speed =
           integrate_pass dt speed
             (for3 (nx grid) (ny grid) (nz grid) (force_cell (restDensity grid) pressure' speed)
                (density_pass (phase0 grid)))"
    by (simp add: UpdateGrid_def force_pass_def f0 f1)
  have c: "restDensity (UpdateGrid dt grid pressure' speed) = restDensity grid"
    using UpdateGrid_frame[OF assms, of dt pressure' speed] by (simp add: restDensity_def)
  have d: "acc_at (UpdateGrid dt grid pressure' speed) i j k = spec_accel grid i j k \<and>
            colour_of (vertices (UpdateGrid dt grid True False) ! vid grid i j k)
              = gradient (fclamp
                  (fdiv (fsub (spec_pressure grid i j k)
                              (fneg (fdiv (Fin ((20 - 0) * (60 - 0) * (20 - 0)))
                                          (float_of_int (nx grid * ny grid * nz grid)))))
                        (fmul (fdiv (Fin ((20 - 0) * (60 - 0) * (20 - 0)))
                                    (float_of_int (nx grid * ny grid * nz grid)))
                              (Fin 2)))
                  (Fin 0) (Fin 1))" if "in_grid grid i j k" for i j k
    using UpdateGrid_acc(2)[OF assms that, of dt pressure' speed]
      pressure_colour(2)[OF assms that, of dt]
    unfolding a[symmetric] by blast
  show ?thesis using a b c d by blast
qed

text \<open>
  An instance of C6: for two particles at distance 1 the rest density is 12000, before and
  after a step; both have the pressure \<open>0.6 \<sqdot> (1 / 36 - 12000)\<close>, and the step stores the
  acceleration \<open>(2, -9.81, 1202 - 1 / 360)\<close> for the first.
\<close>

theorem restDensity_per_step_witness:
  "wf_grid pair_grid \<and> in_grid pair_grid 0 0 0 \<and> restDensity pair_grid = Fin 12000 \<and>
   restDensity (UpdateGrid (Fin (1 / 100)) pair_grid True False) = Fin 12000 \<and>
   spec_pressure pair_grid 0 0 0 = Fin (1 / 60 - 7200) \<and>
   acc_at (UpdateGrid (Fin (1 / 100)) pair_grid True False) 0 0 0
     = (Fin 2, Fin (- 981 / 100), Fin (1202 - 1 / 360)) \<and>
   colour_of (vertices (UpdateGrid (Fin (1 / 100)) pair_grid True False) ! vid pair_grid 0 0 0)
     = gradient (Fin (288001 / 1440000))"
proof -
  have n: "nx pair_grid * ny pair_grid * nz pair_grid = 2" by (simp add: pair_grid_def)
  from restDensity_per_step[OF wf_pair(1), of "Fin (1 / 100)" True False]
  have c: "restDensity pair_grid = fdiv (Fin ((20 - 0) * (60 - 0) * (20 - 0)))
                              (float_of_int (nx pair_grid * ny pair_grid * nz pair_grid))"
    "restDensity (UpdateGrid (Fin (1 / 100)) pair_grid True False) = restDensity pair_grid"
    "in_grid pair_grid 0 0 0 \<longrightarrow>
            acc_at (UpdateGrid (Fin (1 / 100)) pair_grid True False) 0 0 0 = spec_accel pair_grid 0 0 0 \<and>
            colour_of (vertices (UpdateGrid (Fin (1 / 100)) pair_grid True False) ! vid pair_grid 0 0 0)
              = gradient (fclamp
                  (fdiv (fsub (spec_pressure pair_grid 0 0 0)
                              (fneg (fdiv (Fin ((20 - 0) * (60 - 0) * (20 - 0)))
                                          (float_of_int (nx pair_grid * ny pair_grid * nz pair_grid)))))
                        (fmul (fdiv (Fin ((20 - 0) * (60 - 0) * (20 - 0)))
                                    (float_of_int (nx pair_grid * ny pair_grid * nz pair_grid)))
                              (Fin 2)))
                  (Fin 0) (Fin 1))"
    by blast+
  have r: "restDensity pair_grid = Fin 12000"
    unfolding c(1) n by (simp add: float_of_int_def)
  have k: "fclamp (fdiv (fsub (Fin (1 / 60 - 7200))
                              (fneg (fdiv (Fin ((20 - 0) * (60 - 0) * (20 - 0))) (float_of_int 2))))
                        (fmul (fdiv (Fin ((20 - 0) * (60 - 0) * (20 - 0))) (float_of_int 2)) (Fin 2)))
                  (Fin 0) (Fin 1) = Fin (288001 / 1440000)"
    by (simp add: float_of_int_def fsub_def fclamp_def)
  show ?thesis
    using c(2,3) wf_pair(1,2) r unfolding n pair_pressure pair_accel k by simp
qed

subsection \<open>C7: both colour modes\<close>

text \<open>
  Claim C7. After a step on a well-formed grid with both \<open>pressure\<close> and \<open>speed\<close> set, for any
  \<open>dt\<close>, the colour of every particle is \<open>(v_norm, 0.2 \<sqdot> (1 - v_norm), 1 - v_norm)\<close>, where
  \<open>v_norm = fmin(|velocity| / 15, 1)\<close> is computed from the velocity that the step has stored
  for the particle.
\<close>

theorem speed_colour_overwrites:
  assumes "wf_grid grid" and "in_grid grid i j k"
  shows "let grid' = UpdateGrid dt grid True True;
             v = vertices grid' ! vid grid i j k;
             v_norm = speed_norm (vel_at grid' i j k)
         in r v = v_norm \<and> g v = fmul (Fin (2 / 10)) (fsub (Fin 1) v_norm) \<and>
            b v = fsub (Fin 1) v_norm"
proof -
  let ?s3 = "force_pass (restDensity grid) True True (density_pass (phase0 grid))"
  obtain v1 v2 v3 where vel: "vel_at grid i j k = (v1, v2, v3)" by (cases "vel_at grid i j k") auto
  obtain c1 c2 c3 where acc: "acc_at ?s3 i j k = (c1, c2, c3)" by (cases "acc_at ?s3 i j k") auto
  show ?thesis
    using UpdateGrid_particle(1)[OF assms, of dt True True]
    unfolding vel acc integrate_particle_def Let_def
    by (simp add: set_color_def gradient_def)
qed

text \<open>
  An instance of C7: a step of 1 on the particle at rest at \<open>(1, 1, 1)\<close>, which falls through the
  floor and is reflected with the velocity \<open>(0, 7.848, 0)\<close>.
\<close>

theorem speed_colour_overwrites_witness:
  "wf_grid lone_grid \<and> in_grid lone_grid 0 0 0 \<and>
   (let grid' = UpdateGrid (Fin 1) lone_grid True True;
        v = vertices grid' ! vid lone_grid 0 0 0
    in vel_at grid' 0 0 0 = (Fin 0, Fin (981 * 8 / 1000), Fin 0) \<and>
       r v = Fin (981 * 8 / 15000) \<and> b v = Fin (1 - 981 * 8 / 15000))"
proof -
  have v: "vel_at (UpdateGrid (Fin 1) lone_grid True True) 0 0 0 = (Fin 0, Fin (981 * 8 / 1000), Fin 0)"
    by (simp add: lone_grid_def step_defs for3_1 const_defs inf_times_def)
  have "sqrt (962361 / 15625) = 981 / 125"
    by (rule real_sqrt_unique) (simp_all add: power2_eq_square)
  then have s: "speed_norm (Fin 0, Fin (981 * 8 / 1000), Fin 0) = Fin (981 * 8 / 15000)"
    by (simp add: speed_norm_def float_of_int_def)
  show ?thesis
    using speed_colour_overwrites[of lone_grid 0 0 0 "Fin 1"] unfolding Let_def v s
    by (simp add: wf_lone fsub_def)
qed

subsection \<open>C8: the average velocity of a fresh grid\<close>

text \<open>
  Claim C8. For positive resolutions, \<open>ComputeAverageVelocity\<close> on the grid that \<open>CreateGrid\<close>
  returns gives \<open>(0, 0, 0)\<close>. (Its only result is the returned record.)
\<close>

theorem average_velocity_of_fresh_grid:
  assumes "0 < resolution_x" and "0 < resolution_y" and "0 < resolution_z"
  shows "\<exists>grid. CreateGrid resolution_x resolution_y resolution_z scale = Some grid \<and>
           ComputeAverageVelocity grid =
             \<lparr> x = Fin 0, y = Fin 0, z = Fin 0, r = Fin 0, g = Fin 0, b = Fin 0 \<rparr>"
proof -
  have nn: "0 \<le> resolution_x" "0 \<le> resolution_y" "0 \<le> resolution_z" using assms by simp_all
  from CreateGrid_fields[OF nn, of scale] obtain grid where
    g: "CreateGrid resolution_x resolution_y resolution_z scale = Some grid"
      "grid\<lparr>vertices := []\<rparr> = (fresh resolution_x resolution_y resolution_z)\<lparr>vertices := []\<rparr>"
    by blast
  have "nx grid = nx (grid\<lparr>vertices := []\<rparr>)" "ny grid = ny (grid\<lparr>vertices := []\<rparr>)"
    "nz grid = nz (grid\<lparr>vertices := []\<rparr>)" "vx grid = vx (grid\<lparr>vertices := []\<rparr>)"
    "vy grid = vy (grid\<lparr>vertices := []\<rparr>)" "vz grid = vz (grid\<lparr>vertices := []\<rparr>)"
    by simp_all
  then have f: "nx grid = resolution_x" "ny grid = resolution_y" "nz grid = resolution_z"
    "vx grid = zeros3 resolution_x resolution_y resolution_z"
    "vy grid = zeros3 resolution_x resolution_y resolution_z"
    "vz grid = zeros3 resolution_x resolution_y resolution_z"
    unfolding g(2) by (simp_all add: fresh_def)
  have t: "for3 (nx grid) (ny grid) (nz grid) (total_add grid) (Fin 0, Fin 0, Fin 0) = (Fin 0, Fin 0, Fin 0)"
    by (rule total_zero) (simp_all add: f)
  have "resolution_x * resolution_y * resolution_z \<noteq> 0" using assms by simp
  then have "ComputeAverageVelocity grid =
             \<lparr> x = Fin 0, y = Fin 0, z = Fin 0, r = Fin 0, g = Fin 0, b = Fin 0 \<rparr>"
    unfolding ComputeAverageVelocity_def Let_def t by (simp add: f float_of_int_def)
  then show ?thesis using g(1) by blast
qed

text \<open>An instance of C8.\<close>

theorem average_velocity_of_fresh_grid_witness:
  "(0 :: int) < 2 \<and>
   (\<exists>grid. CreateGrid 2 2 2 (Fin 1) = Some grid \<and>
      ComputeAverageVelocity grid = \<lparr> x = Fin 0, y = Fin 0, z = Fin 0, r = Fin 0, g = Fin 0, b = Fin 0 \<rparr>)"
  using average_velocity_of_fresh_grid[of 2 2 2 "Fin 1"] by simp

subsection \<open>C9: the colours of a fresh grid\<close>

text \<open>
  Claim C9. For positive resolutions and any spacing, every particle record of the grid that
  \<open>CreateGrid\<close> returns has the colour \<open>(0, 0, 0)\<close>.
\<close>

theorem CreateGrid_colours_zero:
  assumes "0 < resolution_x" and "0 < resolution_y" and "0 < resolution_z"
  shows "\<exists>grid. CreateGrid resolution_x resolution_y resolution_z scale = Some grid \<and>
           (\<forall>v\<in>set (vertices grid). r v = Fin 0 \<and> g v = Fin 0 \<and> b v = Fin 0)"
proof -
  have nn: "0 \<le> resolution_x" "0 \<le> resolution_y" "0 \<le> resolution_z" using assms by simp_all
  from CreateGrid_fields[OF nn, of scale] show ?thesis by blast
qed

text \<open>An instance of C9.\<close>

theorem CreateGrid_colours_zero_witness:
  "(0 :: int) < 2 \<and>
   (\<exists>grid. CreateGrid 2 2 2 (Fin 1) = Some grid \<and>
      (\<forall>v\<in>set (vertices grid). r v = Fin 0 \<and> g v = Fin 0 \<and> b v = Fin 0))"
  using CreateGrid_colours_zero[of 2 2 2 "Fin 1"] by simp

subsection \<open>C10: a step of length zero\<close>

text \<open>
  Claim C10, as amended. In a step with \<open>dt = 0\<close> on a well-formed grid, every particle whose
  position is strictly inside \<open>(min + epsilon, max - epsilon)\<close> on the three axes, whose velocity
  is finite and for which the force phase of the step computes a finite acceleration keeps
  its position and its velocity. (The product of a non-finite value and zero is a NaN.)
\<close>

theorem zero_dt_keeps_finite_particle:
  assumes "wf_grid grid" and "in_grid grid i j k"
    and "strictly_inside minX maxX (x (vertices grid ! vid grid i j k))"
    and "strictly_inside minY maxY (y (vertices grid ! vid grid i j k))"
    and "strictly_inside minZ maxZ (z (vertices grid ! vid grid i j k))"
    and "finite3 (vel_at grid i j k)"
    and "finite3 (acc_at (force_pass (restDensity grid) p sp (density_pass (phase0 grid))) i j k)"
  shows "pos (vertices (UpdateGrid (Fin 0) grid p sp) ! vid grid i j k) = pos (vertices grid ! vid grid i j k) \<and>
         vel_at (UpdateGrid (Fin 0) grid p sp) i j k = vel_at grid i j k"
proof -
  let ?s3 = "force_pass (restDensity grid) p sp (density_pass (phase0 grid))"
  let ?v = "vertices grid ! vid grid i j k" and ?w = "vertices ?s3 ! vid grid i j k"
  obtain v1 v2 v3 where vel: "vel_at grid i j k = (Fin v1, Fin v2, Fin v3)"
    using assms(6) by (cases "vel_at grid i j k"; cases "fst (vel_at grid i j k)";
        cases "fst (snd (vel_at grid i j k))"; cases "snd (snd (vel_at grid i j k))")
      (auto simp: finite3_def)
  obtain c1 c2 c3 where acc: "acc_at ?s3 i j k = (Fin c1, Fin c2, Fin c3)"
    using assms(7) by (cases "acc_at ?s3 i j k"; cases "fst (acc_at ?s3 i j k)";
        cases "fst (snd (acc_at ?s3 i j k))"; cases "snd (snd (acc_at ?s3 i j k))")
      (auto simp: finite3_def)
  have p: "x ?w = x ?v" "y ?w = y ?v" "z ?w = z ?v"
    using UpdateGrid_particle(2)[OF assms(1,2), of p sp] by (simp_all add: pos_def)
  obtain q1 where q1: "x ?v = Fin q1" "\<not> flt (x ?v) (fadd minX epsilon)" "\<not> fgt (x ?v) (fsub maxX epsilon)"
    using assms(3) by (cases "x ?v") (auto simp: strictly_inside_def minX_def maxX_def epsilon_def fsub_def fgt_def)
  obtain q2 where q2: "y ?v = Fin q2" "\<not> flt (y ?v) (fadd minY epsilon)" "\<not> fgt (y ?v) (fsub maxY epsilon)"
    using assms(4) by (cases "y ?v") (auto simp: strictly_inside_def minY_def maxY_def epsilon_def fsub_def fgt_def)
  obtain q3 where q3: "z ?v = Fin q3" "\<not> flt (z ?v) (fadd minZ epsilon)" "\<not> fgt (z ?v) (fsub maxZ epsilon)"
    using assms(5) by (cases "z ?v") (auto simp: strictly_inside_def minZ_def maxZ_def epsilon_def fsub_def fgt_def)
  have bx: "bounce minX maxX (fadd (x ?w) (fmul (fadd (Fin v1) (fmul (Fin c1) (Fin 0))) (Fin 0)),
              fadd (Fin v1) (fmul (Fin c1) (Fin 0))) = (x ?w, Fin v1)"
    using q1 unfolding p by (simp add: bounce_def)
  have bY: "bounce minY maxY (fadd (y ?w) (fmul (fadd (Fin v2) (fmul (Fin c2) (Fin 0))) (Fin 0)),
              fadd (Fin v2) (fmul (Fin c2) (Fin 0))) = (y ?w, Fin v2)"
    using q2 unfolding p by (simp add: bounce_def)
  have bz: "bounce minZ maxZ (fadd (z ?w) (fmul (fadd (Fin v3) (fmul (Fin c3) (Fin 0))) (Fin 0)),
              fadd (Fin v3) (fmul (Fin c3) (Fin 0))) = (z ?w, Fin v3)"
    using q3 unfolding p by (simp add: bounce_def)
  have "integrate_particle (Fin 0) sp ?w (Fin v1, Fin v2, Fin v3) (Fin c1, Fin c2, Fin c3)
        = (if sp then set_color (gradient (speed_norm (Fin v1, Fin v2, Fin v3))) ?w else ?w,
           (Fin v1, Fin v2, Fin v3))"
    unfolding integrate_particle_def Let_def prod.case bx bY bz by simp
  then show ?thesis
    using UpdateGrid_particle(1)[OF assms(1,2), of "Fin 0" p sp] p
    unfolding vel acc by (auto simp: pos_def)
qed

text \<open>
  Claim C10 as stated (for every state with all positions strictly inside) fails on the grid of
  one particle at \<open>(1, 1, 1)\<close> whose velocity along x is \<open>+\<infinity>\<close>: the step with \<open>dt = 0\<close> adds
  \<open>\<infinity> \<sqdot> 0\<close> to the x coordinate, which becomes a NaN.
\<close>

theorem zero_dt_keeps_finite_particle_counterexample:
  "wf_grid inf_grid \<and> in_grid inf_grid 0 0 0 \<and>
   strictly_inside minX maxX (x (vertices inf_grid ! vid inf_grid 0 0 0)) \<and>
   strictly_inside minY maxY (y (vertices inf_grid ! vid inf_grid 0 0 0)) \<and>
   strictly_inside minZ maxZ (z (vertices inf_grid ! vid inf_grid 0 0 0)) \<and>
   pos (vertices (UpdateGrid (Fin 0) inf_grid False False) ! vid inf_grid 0 0 0)
     \<noteq> pos (vertices inf_grid ! vid inf_grid 0 0 0)"
proof -
  have a: "vertices inf_grid ! 0 = \<lparr> x = Fin 1, y = Fin 1, z = Fin 1, r = Fin 0, g = Fin 0, b = Fin 0 \<rparr>"
    by (simp add: inf_grid_def lone_grid_def)
  have c: "x (vertices (UpdateGrid (Fin 0) inf_grid False False) ! 0) = NaN"
    by (simp add: inf_grid_def lone_grid_def step_defs for3_1 const_defs inf_times_def)
  show ?thesis
    using c by (simp add: wf_inf a strictly_inside_def pos_def const_defs)
qed

text \<open>An instance of C10: the particle at rest at \<open>(1, 1, 1)\<close>.\<close>

theorem zero_dt_keeps_finite_particle_witness:
  "wf_grid lone_grid \<and> in_grid lone_grid 0 0 0 \<and>
   strictly_inside minX maxX (x (vertices lone_grid ! vid lone_grid 0 0 0)) \<and>
   strictly_inside minY maxY (y (vertices lone_grid ! vid lone_grid 0 0 0)) \<and>
   strictly_inside minZ maxZ (z (vertices lone_grid ! vid lone_grid 0 0 0)) \<and>
   finite3 (vel_at lone_grid 0 0 0) \<and>
   finite3 (acc_at (force_pass (restDensity lone_grid) False False (density_pass (phase0 lone_grid))) 0 0 0) \<and>
   pos (vertices (UpdateGrid (Fin 0) lone_grid False False) ! vid lone_grid 0 0 0) = (Fin 1, Fin 1, Fin 1) \<and>
   vel_at (UpdateGrid (Fin 0) lone_grid False False) 0 0 0 = (Fin 0, Fin 0, Fin 0)"
proof -
  have a: "vertices lone_grid ! 0 = \<lparr> x = Fin 1, y = Fin 1, z = Fin 1, r = Fin 0, g = Fin 0, b = Fin 0 \<rparr>"
    by (simp add: lone_grid_def)
  have i: "strictly_inside minX maxX (x (vertices lone_grid ! vid lone_grid 0 0 0))"
    "strictly_inside minY maxY (y (vertices lone_grid ! vid lone_grid 0 0 0))"
    "strictly_inside minZ maxZ (z (vertices lone_grid ! vid lone_grid 0 0 0))"
    by (simp_all add: wf_lone a strictly_inside_def const_defs)
  have v: "vel_at lone_grid 0 0 0 = (Fin 0, Fin 0, Fin 0)"
    by (simp add: vel_at_def get3_def lone_grid_def)
  then have fv: "finite3 (vel_at lone_grid 0 0 0)" by (simp add: finite3_def)
  have fa: "finite3 (acc_at (force_pass (restDensity lone_grid) False False (density_pass (phase0 lone_grid))) 0 0 0)"
    by (simp add: acc_lone finite3_def)
  from zero_dt_keeps_finite_particle[OF wf_lone(1) wf_lone(2) i fv fa]
  show ?thesis using i fv fa v by (simp add: wf_lone a pos_def)
qed

end
